theory Spec2Isabelle
  imports Complex_Main "HOL-Library.Word" "HOL-Library.Log_Nat"
begin

section \<open>JavaScript values used by the two scripts\<close>

text \<open>
  The repository holds two Node.js scripts: the taproot (P2TR) batch sender, whose entry
  point is \<open>batchSend\<close>, and the older P2WPKH batch sender, whose entry point is
  \<open>createTransaction\<close>. Both read \<open>config.json\<close>, so a setting is whatever JSON
  scalar the operator wrote, or \<open>undefined\<close> when the key is absent. String-valued
  settings are outside this model.

  A JavaScript Number is a double. It is modelled as the rational it denotes, with
  \<open>None\<close> for NaN, and a product with a fractional operand is rounded to the nearest
  double as the machine does (\<open>to_double\<close> below), so that \<open>0.0001222 * 100000000\<close>
  is a little less than 12220. Sums, differences and products of satoshi amounts are
  integers far below \<open>2 ^ 53\<close>, where double arithmetic is exact. The exponent range of
  doubles is not modelled: it matters only beyond about \<open>1.8e308\<close> and below
  \<open>5e-324\<close>. A BigInt is an \<open>int\<close>.
\<close>

datatype jsval = JUndefined | JNull | JBool bool | JNum rat

text \<open>\<open>ToBoolean\<close>: what \<open>||\<close>, \<open>&&\<close> and \<open>!\<close> test.\<close>

fun truthy :: "jsval \<Rightarrow> bool" where
  "truthy JUndefined = False"
| "truthy JNull = False"
| "truthy (JBool b) = b"
| "truthy (JNum r) = (r \<noteq> 0)"

text \<open>\<open>a || b\<close>\<close>

definition js_or :: "jsval \<Rightarrow> jsval \<Rightarrow> jsval" where
  "js_or a b = (if truthy a then a else b)"

text \<open>\<open>ToNumber\<close>, applied by \<open>*\<close> to a non-number operand; \<open>None\<close> is NaN.\<close>

fun ToNumber :: "jsval \<Rightarrow> rat option" where
  "ToNumber JUndefined = None"
| "ToNumber JNull = Some 0"
| "ToNumber (JBool b) = Some (if b then 1 else 0)"
| "ToNumber (JNum r) = Some r"

text \<open>\<open>typeof v === 'number'\<close>\<close>

fun is_number :: "jsval \<Rightarrow> bool" where
  "is_number (JNum r) = True"
| "is_number v = False"

text \<open>\<open>Math.floor\<close> and \<open>Math.ceil\<close>: NaN stays NaN.\<close>

definition Math_floor :: "rat option \<Rightarrow> int option" where
  "Math_floor x = map_option floor x"

definition Math_ceil :: "rat option \<Rightarrow> int option" where
  "Math_ceil x = map_option ceiling x"

text \<open>
  Rounding to the nearest double: the value is scaled by a power of two into
  \<open>[2 ^ 52, 2 ^ 53)\<close>, rounded to the nearest integer, ties to the even one, and scaled
  back. \<open>binary_exponent a\<close> is the integer \<open>e\<close> with \<open>2 ^ e \<le> a < 2 ^ (e + 1)\<close>.
\<close>

definition round_half_even :: "rat \<Rightarrow> int" where
  "round_half_even x =
     (let f = \<lfloor>x\<rfloor>; t = x - of_int f
      in if t < 1 / 2 then f
         else if 1 / 2 < t then f + 1
         else if even f then f else f + 1)"

definition binary_exponent :: "rat \<Rightarrow> int" where
  "binary_exponent a =
     (case quotient_of a of (p, d) \<Rightarrow>
        (let k = bitlen p - bitlen d in if 2 powi k \<le> a then k else k - 1))"

definition to_double :: "rat \<Rightarrow> rat" where
  "to_double r =
     (if r = 0 then 0
      else (let q = binary_exponent \<bar>r\<bar> - 52
            in sgn r * of_int (round_half_even (\<bar>r\<bar> / 2 powi q)) * 2 powi q))"

text \<open>The product \<open>a * b\<close> of two Numbers.\<close>

definition js_times :: "rat option \<Rightarrow> rat option \<Rightarrow> rat option" where
  "js_times a b = (case (a, b) of (Some x, Some y) \<Rightarrow> Some (to_double (x * y)) | _ \<Rightarrow> None)"

text \<open>Number arithmetic and comparison on integral values; a NaN operand gives NaN, and
  every comparison with NaN is false.\<close>

definition num_add :: "int option \<Rightarrow> int option \<Rightarrow> int option" where
  "num_add a b = (case (a, b) of (Some x, Some y) \<Rightarrow> Some (x + y) | _ \<Rightarrow> None)"

definition num_sub :: "int option \<Rightarrow> int option \<Rightarrow> int option" where
  "num_sub a b = (case (a, b) of (Some x, Some y) \<Rightarrow> Some (x - y) | _ \<Rightarrow> None)"

definition num_mul :: "int option \<Rightarrow> int option \<Rightarrow> int option" where
  "num_mul a b = (case (a, b) of (Some x, Some y) \<Rightarrow> Some (x * y) | _ \<Rightarrow> None)"

definition num_lt :: "int option \<Rightarrow> int option \<Rightarrow> bool" where
  "num_lt a b = (case (a, b) of (Some x, Some y) \<Rightarrow> x < y | _ \<Rightarrow> False)"

definition num_gt :: "int option \<Rightarrow> int option \<Rightarrow> bool" where
  "num_gt a b = (case (a, b) of (Some x, Some y) \<Rightarrow> x > y | _ \<Rightarrow> False)"

section \<open>Failures\<close>

text \<open>
  Every way a run of either script ends early. The taproot script prints a message and
  returns; the P2WPKH script throws. A constructor stands for the message it carries.
\<close>

datatype error =
    InvalidKey
  | FetchError
  | NoUtxos
  | RangeError
  | InsufficientFunds int int
  | MissingScript string nat
  | ScriptMismatch string nat string string
  | NegativeChange int
  | TweakFailed
  | SighashFailed nat
  | SignOrVerifyFailed nat
  | FinalizeFailed
  | FeeRateUnavailable
  | NoValidInputs
  | InvalidOutputValue

text \<open>\<open>BigInt(x)\<close> of a Number throws a RangeError unless \<open>x\<close> is an integer.\<close>

definition BigInt :: "rat option \<Rightarrow> error + int" where
  "BigInt x = (case x of
       None \<Rightarrow> Inl RangeError
     | Some r \<Rightarrow> if of_int \<lfloor>r\<rfloor> = r then Inr \<lfloor>r\<rfloor> else Inl RangeError)"

text \<open>The remainder \<open>a % b\<close> of two BigInts takes the sign of the dividend.\<close>

definition bigint_rem :: "int \<Rightarrow> int \<Rightarrow> int" where
  "bigint_rem a b = sgn a * (\<bar>a\<bar> mod \<bar>b\<bar>)"

section \<open>Buffers and hexadecimal text\<close>

type_synonym byte = "8 word"

definition hexDigits :: string where
  "hexDigits = ''0123456789abcdef''"

text \<open>The value of one hexadecimal digit, in either case.\<close>

definition hexval :: "char \<Rightarrow> nat option" where
  "hexval c = (let n = (of_char c :: nat) in
     if 48 \<le> n \<and> n \<le> 57 then Some (n - 48)
     else if 97 \<le> n \<and> n \<le> 102 then Some (n - 87)
     else if 65 \<le> n \<and> n \<le> 70 then Some (n - 55)
     else None)"

text \<open>\<open>Buffer.from(s, 'hex')\<close> decodes pairs of digits and stops, without failing, at
  the first pair that is not hexadecimal; a trailing single character is dropped.\<close>

fun Buffer_from_hex :: "string \<Rightarrow> byte list" where
  "Buffer_from_hex (a # b # rest) =
     (case (hexval a, hexval b) of
        (Some x, Some y) \<Rightarrow> of_nat (16 * x + y) # Buffer_from_hex rest
      | _ \<Rightarrow> [])"
| "Buffer_from_hex s = []"

text \<open>\<open>buf.toString('hex')\<close>: two lower-case digits per byte.\<close>

definition byte_hex :: "byte \<Rightarrow> string" where
  "byte_hex b = [hexDigits ! (unat b div 16), hexDigits ! (unat b mod 16)]"

definition toString_hex :: "byte list \<Rightarrow> string" where
  "toString_hex bytes = concat (map byte_hex bytes)"

text \<open>\<open>bytesToNumberBE\<close> of the curve library: big-endian bytes as an unsigned integer.\<close>

definition bytesToNumberBE :: "byte list \<Rightarrow> int" where
  "bytesToNumberBE bytes = foldl (\<lambda>acc b. acc * 256 + uint b) 0 bytes"

text \<open>A number as \<open>len\<close> big-endian bytes; the examples write keys with it.\<close>

fun be_bytes :: "nat \<Rightarrow> int \<Rightarrow> byte list" where
  "be_bytes 0 n = []"
| "be_bytes (Suc len) n = be_bytes len (n div 256) @ [of_int (n mod 256)]"

text \<open>
  \<open>numberToBytesBE(n, len)\<close> of the curve library is
  \<open>hexToBytes(n.toString(16).padStart(len * 2, '0'))\<close>. The script calls it with one
  argument, so \<open>len\<close> is \<open>undefined\<close> and nothing is padded: the digits are those of
  \<open>n.toString(16)\<close>, and \<open>hexToBytes\<close> throws on an odd number of them (and on the minus
  sign of a negative number); otherwise the result has half as many bytes as there are
  digits, which is fewer than 32 for a number below \<open>2 ^ 248\<close>.
\<close>

text \<open>\<open>n.toString(16)\<close> of a BigInt: its hexadecimal digits without leading zeros,
  after a minus sign when it is negative. A positive \<open>n\<close> has
  \<open>(bitlen n + 3) div 4\<close> digits.\<close>

fun hex_digits :: "nat \<Rightarrow> int \<Rightarrow> string" where
  "hex_digits 0 n = []"
| "hex_digits (Suc k) n = hex_digits k (n div 16) @ [hexDigits ! nat (n mod 16)]"

definition toString16 :: "int \<Rightarrow> string" where
  "toString16 n =
     (if n = 0 then ''0''
      else if n < 0 then CHR ''-'' # hex_digits (nat ((bitlen (- n) + 3) div 4)) (- n)
      else hex_digits (nat ((bitlen n + 3) div 4)) n)"

fun hexToBytes :: "string \<Rightarrow> byte list option" where
  "hexToBytes [] = Some []"
| "hexToBytes [a] = None"
| "hexToBytes (a # b # rest) =
     (case (hexval a, hexval b) of
        (Some x, Some y) \<Rightarrow> map_option (\<lambda>bytes. of_nat (16 * x + y) # bytes) (hexToBytes rest)
      | _ \<Rightarrow> None)"

definition numberToBytesBE :: "int \<Rightarrow> byte list option" where
  "numberToBytesBE n = hexToBytes (toString16 n)"

text \<open>The order of the secp256k1 group, \<open>secp.secp256k1.CURVE.n\<close>.\<close>

definition CURVE_n :: int where
  "CURVE_n = 0xFFFFFFFFFFFFFFFFFFFFFFFFFFFFFFFEBAAEDCE6AF48A03BBFD25E8CD0364141"

section \<open>Data of the taproot script\<close>

text \<open>\<open>config.json\<close>\<close>

record config =
  network :: string
  privateKey :: string
  sendAmountBTC :: jsval
  feeRate :: jsval

text \<open>One entry of the explorer's UTXO list; \<open>val\<close> is its \<open>value\<close> in satoshis.\<close>

record utxo =
  txid :: string
  vout :: nat
  val :: int

text \<open>The explorer's answer for a transaction, reduced to what the scripts read:
  \<open>data.vout[k].scriptpubkey\<close> for each output \<open>k\<close>, \<open>None\<close> where the field is
  missing.\<close>

type_synonym tx_details = "string option list"

text \<open>The explorer's recommended fees.\<close>

record fees =
  halfHourFee :: jsval
  fastestFee :: jsval

text \<open>The partially signed transaction the scripts build; \<open>amount\<close> is the
  \<open>value\<close> of an output, in satoshis.\<close>

record psbt_input =
  hash :: string
  index :: nat
  witnessUtxo_script :: "byte list"
  witnessUtxo_value :: int
  tapInternalKey :: "byte list option"
  tapKeySig :: "byte list option"
  partialSig :: "byte list option"

record tx_output =
  address :: string
  amount :: int

record psbt =
  inputs :: "psbt_input list"
  outputs :: "tx_output list"

text \<open>\<open>psbt.__CACHE.__TX\<close>, the unsigned transaction inside the PSBT: the outpoints it
  spends and its outputs.\<close>

definition cached_tx :: "psbt \<Rightarrow> (string \<times> nat) list \<times> tx_output list" where
  "cached_tx p = (map (\<lambda>i. (hash i, index i)) (inputs p), outputs p)"

text \<open>
  What a run of the taproot script receives from outside: the two files, the explorer's
  answers (\<open>None\<close> when the request fails) and the functions of the Bitcoin and curve
  libraries, which are not code of this repository. \<open>schnorr_sign\<close> draws fresh
  randomness on every call, so it also takes the index of the input being signed.
\<close>

record env =
  config :: config
  addresses :: "string list"
  fees_recommended :: "fees option"
  fromWIF :: "string \<Rightarrow> byte list option"
  isValidPrivateKey :: "byte list \<Rightarrow> bool"
  getPublicKey :: "byte list \<Rightarrow> byte list"
  p2tr :: "byte list \<Rightarrow> string \<times> byte list"
  getUtxos :: "string \<Rightarrow> utxo list option"
  getUtxoDetails :: "utxo \<Rightarrow> tx_details option"
  hashForWitnessV1 :: "(string \<times> nat) list \<times> tx_output list \<Rightarrow> nat \<Rightarrow> byte list list
     \<Rightarrow> int list \<Rightarrow> nat \<Rightarrow> byte list \<Rightarrow> byte list option"
  schnorr_sign :: "nat \<Rightarrow> byte list \<Rightarrow> byte list \<Rightarrow> byte list option"
  schnorr_verify :: "byte list \<Rightarrow> byte list \<Rightarrow> byte list \<Rightarrow> bool"
  extractTransaction :: "psbt \<Rightarrow> string option"
  answer :: string
  broadcastTx :: "string \<Rightarrow> string option"

section \<open>The taproot script: amounts, fee rate and size\<close>

text \<open>\<open>const amountToSendBTC = config.sendAmountBTC || 0.0001\<close>; the literal is the
  double nearest to \<open>1 / 10000\<close>.\<close>

definition amountToSendBTC :: "config \<Rightarrow> jsval" where
  "amountToSendBTC cfg = js_or (sendAmountBTC cfg) (JNum (to_double (1 / 10000)))"

text \<open>\<open>const amountInSats = Math.floor(amountToSendBTC * 100000000)\<close>\<close>

definition amountInSats :: "config \<Rightarrow> int option" where
  "amountInSats cfg =
     Math_floor (js_times (ToNumber (amountToSendBTC cfg)) (Some 100000000))"


text \<open>\<open>getFeeRate\<close> of the taproot script asks the explorer first.\<close>

definition getFeeRate :: "config \<Rightarrow> fees option \<Rightarrow> jsval" where
  "getFeeRate cfg response =
     (case response of
        Some data \<Rightarrow> js_or (halfHourFee data) (js_or (fastestFee data) (feeRate cfg))
      | None \<Rightarrow> feeRate cfg)"

definition estimateTxVbytes :: "nat \<Rightarrow> nat \<Rightarrow> int" where
  "estimateTxVbytes inputCount outputCount =
     \<lceil>(21 / 2 :: rat) + of_nat inputCount * (115 / 2) + of_nat outputCount * 43\<rceil>"

text \<open>\<open>BigInt(estimateTxVbytes(inputCount, outputCount) * feeRate)\<close>\<close>

definition estimatedFee :: "jsval \<Rightarrow> nat \<Rightarrow> nat \<Rightarrow> error + int" where
  "estimatedFee rate inputCount outputCount =
     BigInt (js_times (Some (of_int (estimateTxVbytes inputCount outputCount)))
       (ToNumber rate))"

section \<open>The taproot script: selecting UTXOs\<close>

text \<open>
  The loop over \<open>utxos\<close>. Its state is \<open>selectedUtxos\<close>, \<open>totalInput\<close> and
  \<open>estimatedFee\<close>; \<open>n\<close> is \<open>addresses.length\<close> and \<open>toSend\<close> is
  \<open>totalAmountToSend\<close>.
\<close>

fun select_loop :: "jsval \<Rightarrow> nat \<Rightarrow> int \<Rightarrow> utxo list \<Rightarrow> utxo list \<times> int \<times> int
    \<Rightarrow> error + utxo list \<times> int \<times> int" where
  "select_loop rate n toSend [] st = Inr st"
| "select_loop rate n toSend (u # us) (selectedUtxos, totalInput, fee) =
     (let selectedUtxos' = selectedUtxos @ [u];
          totalInput' = totalInput + val u
      in case estimatedFee rate (length selectedUtxos') (n + 1) of
           Inl e \<Rightarrow> Inl e
         | Inr fee' \<Rightarrow>
             if totalInput' \<ge> toSend + fee' then Inr (selectedUtxos', totalInput', fee')
             else select_loop rate n toSend us (selectedUtxos', totalInput', fee'))"

text \<open>Step 2 after the fetch: the preliminary estimate, the loop and the balance check.\<close>

definition selectUtxos :: "jsval \<Rightarrow> nat \<Rightarrow> int \<Rightarrow> utxo list \<Rightarrow> error + utxo list \<times> int \<times> int" where
  "selectUtxos rate n toSend utxos =
     (case estimatedFee rate 1 (n + 1) of
        Inl e \<Rightarrow> Inl e
      | Inr initialEstimatedFee \<Rightarrow>
          (case select_loop rate n toSend utxos ([], 0, 0) of
             Inl e \<Rightarrow> Inl e
           | Inr (selectedUtxos, totalInput, fee) \<Rightarrow>
               if totalInput < toSend + fee
               then Inl (InsufficientFunds (toSend + fee) totalInput)
               else Inr (selectedUtxos, totalInput, fee)))"

section \<open>The taproot script: keys\<close>

text \<open>
  Step 1. The private key of the WIF string, checked by the curve library, and the x-only
  public key: bytes 1 to 32 of the compressed public key.
\<close>

definition initKeys :: "env \<Rightarrow> error + byte list \<times> byte list" where
  "initKeys E =
     (case fromWIF E (privateKey (config E)) of
        None \<Rightarrow> Inl InvalidKey
      | Some privateKeyBytes \<Rightarrow>
          if \<not> isValidPrivateKey E privateKeyBytes then Inl InvalidKey
          else Inr (privateKeyBytes, take 32 (drop 1 (getPublicKey E privateKeyBytes))))"

text \<open>
  The key that signs: when the compressed public key starts with byte 3 (odd y), the
  script replaces the private key \<open>d\<close> by \<open>(N - d) % N\<close>, written back to bytes
  with \<open>numberToBytesBE\<close>; a throw there ends the run.
\<close>

definition privateKeyToUse :: "byte list \<Rightarrow> byte list \<Rightarrow> error + byte list" where
  "privateKeyToUse fullPublicKeyBytes privateKeyBytes =
     (if (case fullPublicKeyBytes of b # _ \<Rightarrow> b = 3 | [] \<Rightarrow> False) then
        (let privKeyBigInt = bytesToNumberBE privateKeyBytes;
             tweakedPrivKeyBigInt = bigint_rem (CURVE_n - privKeyBigInt) CURVE_n
         in case numberToBytesBE tweakedPrivKeyBigInt of
              None \<Rightarrow> Inl TweakFailed
            | Some k \<Rightarrow> Inr k)
      else Inr privateKeyBytes)"

section \<open>The taproot script: building the transaction\<close>

text \<open>
  Step 3. For each selected UTXO the script fetches the funding transaction, reads the
  script of the spent output, normalises its hex text and compares it with the script of
  the sender's address: \<open>checkedInput\<close> is the body of the loop, the input it
  adds or the failure. Any failure ends the run; the inputs added so far stay in the PSBT.
  \<open>psbt.addInput\<close> itself is an append; what the library may refuse on its own (a
  malformed transaction id, a duplicate outpoint) is not modelled.
\<close>

definition checkedInput :: "env \<Rightarrow> string \<Rightarrow> byte list \<Rightarrow> utxo \<Rightarrow> error + psbt_input" where
  "checkedInput E expectedScriptPubKeyHex pubkey u =
     (case getUtxoDetails E u of
        None \<Rightarrow> Inl FetchError
      | Some utxoDetails \<Rightarrow>
          (case (if vout u < length utxoDetails then utxoDetails ! vout u else None) of
             None \<Rightarrow> Inl (MissingScript (txid u) (vout u))
           | Some scriptPubKeyFromApi \<Rightarrow>
               if scriptPubKeyFromApi = [] then Inl (MissingScript (txid u) (vout u))
               else
                 (let scriptPubKeyFromApiHex = toString_hex (Buffer_from_hex scriptPubKeyFromApi)
                  in if scriptPubKeyFromApiHex \<noteq> expectedScriptPubKeyHex
                     then Inl (ScriptMismatch (txid u) (vout u) scriptPubKeyFromApiHex
                                 expectedScriptPubKeyHex)
                     else Inr \<lparr>hash = txid u, index = vout u,
                               witnessUtxo_script = Buffer_from_hex scriptPubKeyFromApiHex,
                               witnessUtxo_value = val u,
                               tapInternalKey = Some pubkey,
                               tapKeySig = None, partialSig = None\<rparr>)))"

fun addInputs :: "env \<Rightarrow> string \<Rightarrow> byte list \<Rightarrow> utxo list \<Rightarrow> psbt \<Rightarrow> error option \<times> psbt" where
  "addInputs E expectedScriptPubKeyHex pubkey [] p = (None, p)"
| "addInputs E expectedScriptPubKeyHex pubkey (u # us) p =
     (case checkedInput E expectedScriptPubKeyHex pubkey u of
        Inl e \<Rightarrow> (Some e, p)
      | Inr inp \<Rightarrow>
          addInputs E expectedScriptPubKeyHex pubkey us (p\<lparr>inputs := inputs p @ [inp]\<rparr>))"

text \<open>\<open>String.prototype.trim\<close>, on ASCII white space.\<close>

definition is_space :: "char \<Rightarrow> bool" where
  "is_space c = (c \<in> set [CHR '' '', CHR 0x09, CHR 0x0A, CHR 0x0B, CHR 0x0C, CHR 0x0D])"

definition trim :: "string \<Rightarrow> string" where
  "trim s = rev (dropWhile is_space (rev (dropWhile is_space s)))"

text \<open>\<open>psbt.addOutput\<close>. The library's own validation of the address and the value is
  not modelled: it can only turn a run that succeeds here into one that fails.\<close>

definition addOutput :: "string \<Rightarrow> int \<Rightarrow> psbt \<Rightarrow> psbt" where
  "addOutput a v p = p\<lparr>outputs := outputs p @ [\<lparr>address = a, amount = v\<rparr>]\<rparr>"

text \<open>Step 4: one output per line of the address file, in order.\<close>

fun addOutputs :: "string list \<Rightarrow> int \<Rightarrow> psbt \<Rightarrow> psbt" where
  "addOutputs [] v p = p"
| "addOutputs (a # as) v p = addOutputs as v (addOutput (trim a) v p)"

section \<open>The taproot script: signing\<close>

definition SIGHASH_DEFAULT :: nat where
  "SIGHASH_DEFAULT = 0"

definition genesisBlockHash :: "byte list" where
  "genesisBlockHash =
     Buffer_from_hex ''000000000019d6689c085ae165831e934ff763ae46a2a6c172b3f1b60a8ce26f''"

text \<open>
  The arguments the script hands to \<open>hashForWitnessV1\<close> for input \<open>i\<close>: the index, a list
  of previous scripts and a list of previous values. \<open>prevoutScripts\<close> and
  \<open>prevoutValues\<close> are built by mapping over the selected UTXOs, but every element is
  read from \<open>psbt.data.inputs[i]\<close>, and only element \<open>i\<close> of each is passed on.
\<close>

definition sighash_prevouts :: "utxo list \<Rightarrow> psbt \<Rightarrow> nat \<Rightarrow> (byte list list \<times> int list) option" where
  "sighash_prevouts selectedUtxos p i =
     (if i < length (inputs p) then
        (let prevoutScripts = map (\<lambda>utxo. witnessUtxo_script (inputs p ! i)) selectedUtxos;
             prevoutValues = map (\<lambda>utxo. witnessUtxo_value (inputs p ! i)) selectedUtxos
         in if i < length prevoutScripts
            then Some ([prevoutScripts ! i], [prevoutValues ! i])
            else None)
      else None)"

text \<open>One round of the signing loop: hash, sign, verify, store the signature.\<close>

definition signInput :: "env \<Rightarrow> utxo list \<Rightarrow> byte list \<Rightarrow> byte list \<Rightarrow> nat \<Rightarrow> psbt
    \<Rightarrow> error option \<times> psbt" where
  "signInput E selectedUtxos key pubkey i p =
     (case sighash_prevouts selectedUtxos p i of
        None \<Rightarrow> (Some (SighashFailed i), p)
      | Some (scripts, values) \<Rightarrow>
          (case hashForWitnessV1 E (cached_tx p) i scripts values SIGHASH_DEFAULT
                  genesisBlockHash of
             None \<Rightarrow> (Some (SighashFailed i), p)
           | Some sighashBytes \<Rightarrow>
               (case schnorr_sign E i sighashBytes key of
                  None \<Rightarrow> (Some (SignOrVerifyFailed i), p)
                | Some schnorrSignatureBytes \<Rightarrow>
                    if \<not> schnorr_verify E schnorrSignatureBytes sighashBytes pubkey
                    then (Some (SignOrVerifyFailed i), p)
                    else (None, p\<lparr>inputs := (inputs p)
                            [i := (inputs p ! i)\<lparr>tapKeySig := Some schnorrSignatureBytes,
                                                 partialSig := None\<rparr>]\<rparr>))))"

text \<open>The loop \<open>for (let i = 0; i < psbt.inputCount; i++)\<close>, over the indices in
  ascending order; the first failure ends the run.\<close>

fun signInputs :: "env \<Rightarrow> utxo list \<Rightarrow> byte list \<Rightarrow> byte list \<Rightarrow> nat list \<Rightarrow> psbt
    \<Rightarrow> error option \<times> psbt" where
  "signInputs E selectedUtxos key pubkey [] p = (None, p)"
| "signInputs E selectedUtxos key pubkey (i # rest) p =
     (case signInput E selectedUtxos key pubkey i p of
        (Some e, p') \<Rightarrow> (Some e, p')
      | (None, p') \<Rightarrow> signInputs E selectedUtxos key pubkey rest p')"

section \<open>The taproot script: the whole run\<close>

text \<open>What a run that reached the preview reports.\<close>

record build =
  b_txHex :: string
  b_totalInput :: int
  b_totalAmountToSend :: int
  b_finalFee :: int
  b_changeValue :: int

text \<open>
  Steps 3 to 7, from a finished selection: inputs, recipient outputs, change, signatures
  and the final transaction. The result pairs the failure or the report with the PSBT as
  the run leaves it.
\<close>

definition build_from_selection :: "env \<Rightarrow> byte list \<Rightarrow> byte list \<Rightarrow> string \<Rightarrow> string
    \<Rightarrow> int \<Rightarrow> int \<Rightarrow> utxo list \<times> int \<times> int \<Rightarrow> (error + build) \<times> psbt" where
  "build_from_selection E privateKeyBytes pubkey fromAddress expectedScriptPubKeyHex
       sats toSend sel =
     (case sel of (selectedUtxos, totalInput, fee) \<Rightarrow>
      (case addInputs E expectedScriptPubKeyHex pubkey selectedUtxos
              \<lparr>inputs = [], outputs = []\<rparr> of
         (Some e, p1) \<Rightarrow> (Inl e, p1)
       | (None, p1) \<Rightarrow>
           (let p2 = addOutputs (addresses E) sats p1;
                finalFee = fee;
                changeValue = totalInput - toSend - finalFee
            in if changeValue < 0 then (Inl (NegativeChange changeValue), p2)
               else
                 (let p3 = (if changeValue \<ge> 546 then addOutput fromAddress changeValue p2
                            else p2)
                  in case privateKeyToUse (getPublicKey E privateKeyBytes) privateKeyBytes of
                       Inl e \<Rightarrow> (Inl e, p3)
                     | Inr key \<Rightarrow>
                         (case signInputs E selectedUtxos key pubkey
                                 [0..<length (inputs p3)] p3 of
                            (Some e, p4) \<Rightarrow> (Inl e, p4)
                          | (None, p4) \<Rightarrow>
                              (case extractTransaction E p4 of
                                 None \<Rightarrow> (Inl FinalizeFailed, p4)
                               | Some hex \<Rightarrow>
                                   (Inr \<lparr>b_txHex = hex, b_totalInput = totalInput,
                                         b_totalAmountToSend = toSend,
                                         b_finalFee = finalFee,
                                         b_changeValue = changeValue\<rparr>, p4)))))))"

text \<open>Steps 1 to 7 of \<open>batchSend\<close>.\<close>

definition batchSend_build :: "env \<Rightarrow> (error + build) \<times> psbt" where
  "batchSend_build E =
     (let p0 = \<lparr>inputs = [], outputs = []\<rparr>;
          rate = getFeeRate (config E) (fees_recommended E)
      in case initKeys E of
           Inl e \<Rightarrow> (Inl e, p0)
         | Inr (privateKeyBytes, pubkey) \<Rightarrow>
             (case p2tr E pubkey of (fromAddress, output) \<Rightarrow>
              (case getUtxos E fromAddress of
                 None \<Rightarrow> (Inl FetchError, p0)
               | Some utxos \<Rightarrow>
                   if utxos = [] then (Inl NoUtxos, p0)
                   else
                     (case BigInt (map_option of_int (amountInSats (config E))) of
                        Inl e \<Rightarrow> (Inl e, p0)
                      | Inr sats \<Rightarrow>
                          (let totalAmountToSend = sats * int (length (addresses E))
                           in case selectUtxos rate (length (addresses E)) totalAmountToSend
                                     utxos of
                                Inl e \<Rightarrow> (Inl e, p0)
                              | Inr sel \<Rightarrow>
                                  build_from_selection E privateKeyBytes pubkey fromAddress
                                    (toString_hex output) sats totalAmountToSend sel)))))"

text \<open>How a run ends.\<close>

datatype outcome = Failed error | Cancelled | Broadcast string | BroadcastFailed

text \<open>Step 8: the operator confirms with \<open>Y\<close> (any case, surrounding blanks ignored)
  and the transaction is sent.\<close>

definition toUpperCase :: "string \<Rightarrow> string" where
  "toUpperCase s = map (\<lambda>c. if 97 \<le> (of_char c :: nat) \<and> (of_char c :: nat) \<le> 122
                              then char_of ((of_char c :: nat) - 32) else c) s"

definition batchSend :: "env \<Rightarrow> outcome \<times> psbt" where
  "batchSend E =
     (case batchSend_build E of
        (Inl e, p) \<Rightarrow> (Failed e, p)
      | (Inr b, p) \<Rightarrow>
          if toUpperCase (trim (answer E)) = ''Y'' then
            (case broadcastTx E (b_txHex b) of
               None \<Rightarrow> (BroadcastFailed, p)
             | Some txId \<Rightarrow> (Broadcast txId, p))
          else (Cancelled, p))"

section \<open>The P2WPKH script\<close>

text \<open>
  What a run of the P2WPKH script receives from outside. \<open>w_fromWIF\<close> gives the public
  key of the key pair, \<open>psbt_signInput\<close> is the library's \<open>psbt.signInput(i, keyPair)\<close>;
  \<open>w_addresses\<close> are the lines of the address file, trimmed, without the empty ones.
\<close>

record wpkh_env =
  w_config :: config
  w_addresses :: "string list"
  w_fees_recommended :: "fees option"
  w_fromWIF :: "string \<Rightarrow> byte list option"
  w_p2wpkh :: "byte list \<Rightarrow> string"
  getUTXOs :: "string \<Rightarrow> utxo list option"
  getTxDetails :: "string \<Rightarrow> tx_details option"
  psbt_signInput :: "nat \<Rightarrow> psbt \<Rightarrow> byte list option"
  w_extractTransaction :: "psbt \<Rightarrow> string option"
  broadcastTransaction :: "string \<Rightarrow> string option"

text \<open>\<open>getFeeRate\<close> of the P2WPKH script reads the configuration first and throws when
  the explorer fails.\<close>

definition getFeeRate_p2wpkh :: "config \<Rightarrow> fees option \<Rightarrow> error + jsval" where
  "getFeeRate_p2wpkh cfg response =
     (if truthy (feeRate cfg) \<and> is_number (feeRate cfg)
         \<and> (case ToNumber (feeRate cfg) of Some r \<Rightarrow> r > 0 | None \<Rightarrow> False)
      then Inr (feeRate cfg)
      else (case response of
              Some data \<Rightarrow> Inr (fastestFee data)
            | None \<Rightarrow> Inl FeeRateUnavailable))"

text \<open>
  The loop over \<open>utxos\<close>: every UTXO whose funding transaction shows a script for the
  output becomes an input, with that script, and its value is added to \<open>inputAmount\<close>;
  a UTXO without one is skipped (\<open>wpkhInput\<close> is the body of the loop, \<open>None\<close>
  for \<open>continue\<close>). The script is not compared with anything.
\<close>

definition wpkhInput :: "wpkh_env \<Rightarrow> utxo \<Rightarrow> error + psbt_input option" where
  "wpkhInput E u =
     (case getTxDetails E (txid u) of
        None \<Rightarrow> Inl FetchError
      | Some txDetails \<Rightarrow>
          (case (if vout u < length txDetails then txDetails ! vout u else None) of
             None \<Rightarrow> Inr None
           | Some scriptpubkey \<Rightarrow>
               if scriptpubkey = [] then Inr None
               else Inr (Some \<lparr>hash = txid u, index = vout u,
                                 witnessUtxo_script = Buffer_from_hex scriptpubkey,
                                 witnessUtxo_value = val u,
                                 tapInternalKey = None,
                                 tapKeySig = None, partialSig = None\<rparr>)))"

fun collectInputs :: "wpkh_env \<Rightarrow> utxo list \<Rightarrow> psbt \<Rightarrow> int \<Rightarrow> error option \<times> psbt \<times> int" where
  "collectInputs E [] p inputAmount = (None, p, inputAmount)"
| "collectInputs E (u # us) p inputAmount =
     (case wpkhInput E u of
        Inl e \<Rightarrow> (Some e, p, inputAmount)
      | Inr None \<Rightarrow> collectInputs E us p inputAmount
      | Inr (Some inp) \<Rightarrow>
          collectInputs E us (p\<lparr>inputs := inputs p @ [inp]\<rparr>) (inputAmount + val u))"

text \<open>The size and fee estimate, computed once, for \<open>utxos.length\<close> inputs.\<close>

definition estimatedSize :: "nat \<Rightarrow> nat \<Rightarrow> int" where
  "estimatedSize inputCount outputCount =
     \<lceil>(of_nat (inputCount * 68) :: rat) + of_nat (outputCount * 34) + 21 / 2\<rceil>"

definition estimatedFee_p2wpkh :: "jsval \<Rightarrow> nat \<Rightarrow> nat \<Rightarrow> int option" where
  "estimatedFee_p2wpkh rate inputCount outputCount =
     Math_ceil (js_times (ToNumber rate)
       (Some (of_int (estimatedSize inputCount outputCount))))"

text \<open>The balance check: \<open>inputAmount < totalAddressesAmount + estimatedFee\<close> throws,
  with the needed and the available amount in the message.\<close>

definition balanceCheck :: "int \<Rightarrow> int option \<Rightarrow> error option" where
  "balanceCheck inputAmount needed =
     (if num_lt (Some inputAmount) needed
      then (case needed of Some n \<Rightarrow> Some (InsufficientFunds n inputAmount) | None \<Rightarrow> None)
      else None)"

text \<open>One output per recipient. The library refuses a value that is not a number of
  satoshis, which is how a NaN amount ends the run at the first recipient.\<close>

definition addRecipientOutputs :: "string list \<Rightarrow> int option \<Rightarrow> psbt \<Rightarrow> error + psbt" where
  "addRecipientOutputs addrs v p =
     (if addrs = [] then Inr p
      else (case v of
              None \<Rightarrow> Inl InvalidOutputValue
            | Some sats \<Rightarrow> Inr (foldl (\<lambda>q a. addOutput a sats q) p addrs)))"

text \<open>The change output of the P2WPKH script: \<open>if (changeAmount > 546)\<close>.\<close>

definition addChange_p2wpkh :: "string \<Rightarrow> int option \<Rightarrow> psbt \<Rightarrow> psbt" where
  "addChange_p2wpkh fromAddr changeAmount p =
     (if num_gt changeAmount (Some 546)
      then (case changeAmount of Some c \<Rightarrow> addOutput fromAddr c p | None \<Rightarrow> p)
      else p)"

text \<open>\<open>psbt.signInput(i, keyPair)\<close> for every input, in order.\<close>

fun signAll :: "wpkh_env \<Rightarrow> nat list \<Rightarrow> psbt \<Rightarrow> error option \<times> psbt" where
  "signAll E [] p = (None, p)"
| "signAll E (i # rest) p =
     (case psbt_signInput E i p of
        None \<Rightarrow> (Some (SignOrVerifyFailed i), p)
      | Some sig \<Rightarrow>
          signAll E rest
            (p\<lparr>inputs := (inputs p)[i := (inputs p ! i)\<lparr>partialSig := Some sig\<rparr>]\<rparr>))"

definition createTransaction :: "wpkh_env \<Rightarrow> string \<Rightarrow> jsval \<Rightarrow> (error + string) \<times> psbt" where
  "createTransaction E wif sendAmount =
     (let p0 = \<lparr>inputs = [], outputs = []\<rparr> in
      case w_fromWIF E wif of
        None \<Rightarrow> (Inl InvalidKey, p0)
      | Some publicKey \<Rightarrow>
          (let fromAddr = w_p2wpkh E publicKey in
           case getUTXOs E fromAddr of
             None \<Rightarrow> (Inl FetchError, p0)
           | Some utxos \<Rightarrow>
               if utxos = [] then (Inl NoUtxos, p0)
               else
                 (case getFeeRate_p2wpkh (w_config E) (w_fees_recommended E) of
                    Inl e \<Rightarrow> (Inl e, p0)
                  | Inr rate \<Rightarrow>
                      (case collectInputs E utxos p0 0 of
                         (Some e, p1, inputAmount) \<Rightarrow> (Inl e, p1)
                       | (None, p1, inputAmount) \<Rightarrow>
                           if inputs p1 = [] then (Inl NoValidInputs, p1)
                           else
                             (let totalAmountInSatoshis =
                                    Math_floor (js_times (ToNumber sendAmount)
                                      (Some 100000000));
                                  inputCount = length utxos;
                                  outputCount = length (w_addresses E) + 1;
                                  fee = estimatedFee_p2wpkh rate inputCount outputCount;
                                  totalAddressesAmount =
                                    num_mul (Some (int (length (w_addresses E))))
                                      totalAmountInSatoshis
                              in case balanceCheck inputAmount
                                        (num_add totalAddressesAmount fee) of
                                   Some e \<Rightarrow> (Inl e, p1)
                                 | None \<Rightarrow>
                                     (case addRecipientOutputs (w_addresses E)
                                             totalAmountInSatoshis p1 of
                                        Inl e \<Rightarrow> (Inl e, p1)
                                      | Inr p2 \<Rightarrow>
                                          (let changeAmount =
                                                 num_sub (num_sub (Some inputAmount)
                                                   totalAddressesAmount) fee;
                                               p3 = addChange_p2wpkh fromAddr changeAmount p2
                                           in case signAll E [0..<length (inputs p3)] p3 of
                                                (Some e, p4) \<Rightarrow> (Inl e, p4)
                                              | (None, p4) \<Rightarrow>
                                                  (case w_extractTransaction E p4 of
                                                     None \<Rightarrow> (Inl FinalizeFailed, p4)
                                                   | Some hex \<Rightarrow> (Inr hex, p4)))))))))"

text \<open>The main program of the P2WPKH script: build, then broadcast without asking.\<close>

definition main_p2wpkh :: "wpkh_env \<Rightarrow> outcome \<times> psbt" where
  "main_p2wpkh E =
     (case createTransaction E (privateKey (w_config E)) (sendAmountBTC (w_config E)) of
        (Inl e, p) \<Rightarrow> (Failed e, p)
      | (Inr hex, p) \<Rightarrow>
          (case broadcastTransaction E hex of
             None \<Rightarrow> (BroadcastFailed, p)
           | Some r \<Rightarrow> (Broadcast r, p)))"

section \<open>Example runs\<close>

text \<open>
  Concrete inputs on which the theorems below are exercised: the private key 1, whose
  public key is the generator (even y), three UTXOs, two recipients of 0.0001 BTC and a
  rate of 5 sat/vB. The library functions are small stand-ins. The public key of a scalar
  \<open>d\<close> and of \<open>n - d\<close> share their x coordinate and differ in parity, as on the curve;
  for the keys \<open>1\<close> and \<open>n - 1\<close> the stand-in gives the true points. The signer refuses
  keys that are not 32 bytes of a valid scalar, and a signature is the x-only public key
  of the signing key followed by the hash, which the verifier compares with the public key
  it is given. The hash function insists on one previous output per input and returns 32
  bytes, the P2WPKH signer signs only inputs locked to the sender's script, and a
  transaction is extracted once every input carries a signature. The explorer of
  \<open>ex_env\<close> spells part of the script in upper case.

  The variants change one answer: \<open>ex_env_foreign\<close> and \<open>ex_wenv_foreign\<close> show a foreign
  script for the UTXO \<open>bb\<close>; \<open>ex_env_dust\<close>, \<open>ex_env_546\<close> and \<open>ex_wenv_546\<close> hold one
  UTXO that leaves a change of 100 or of exactly 546 satoshis; \<open>ex_env_two\<close> needs two
  inputs; \<open>ex_env_poor\<close> and \<open>ex_wenv_poor\<close> hold too little; \<open>ex_env_noamount\<close> has no
  \<open>sendAmountBTC\<close>, \<open>ex_env_1222\<close> sends 0.0001222 BTC; \<open>ex_env_oddkey\<close> holds the
  private key \<open>n - 1\<close>, whose public key has odd y.
\<close>

definition ex_config :: config where
  "ex_config = \<lparr>network = ''mainnet'', privateKey = ''L1exampleWIF'',
                 sendAmountBTC = JNum (to_double (1 / 10000)), feeRate = JNum 5\<rparr>"

definition ex_Gx_hex :: string where
  "ex_Gx_hex = ''79be667ef9dcbbac55a06295ce870b07029bfcdb2dce28d959f2815b16f81798''"

definition ex_privateKey :: "byte list" where
  "ex_privateKey = be_bytes 32 1"


definition ex_xonly :: "byte list \<Rightarrow> byte list" where
  "ex_xonly k =
     (let d = bytesToNumberBE k; m = min d (CURVE_n - d)
      in if m = 1 then Buffer_from_hex ex_Gx_hex else be_bytes 32 m)"

definition ex_getPublicKey :: "byte list \<Rightarrow> byte list" where
  "ex_getPublicKey k =
     (if bytesToNumberBE k < CURVE_n - bytesToNumberBE k then 2 else 3) # ex_xonly k"

definition ex_sign :: "nat \<Rightarrow> byte list \<Rightarrow> byte list \<Rightarrow> byte list option" where
  "ex_sign i h k =
     (if length k = 32 \<and> 0 < bytesToNumberBE k \<and> bytesToNumberBE k < CURVE_n
      then Some (ex_xonly k @ h) else None)"

definition ex_utxos :: "utxo list" where
  "ex_utxos = [\<lparr>txid = ''aa'', vout = 0, val = 100000\<rparr>,
               \<lparr>txid = ''bb'', vout = 1, val = 50000\<rparr>,
               \<lparr>txid = ''cc'', vout = 0, val = 20000\<rparr>]"

definition ex_env :: env where
  "ex_env = \<lparr>
     config = ex_config,
     addresses = [''bc1qrecipient1'', ''bc1qrecipient2 ''],
     fees_recommended = Some \<lparr>halfHourFee = JNum 5, fastestFee = JNum 8\<rparr>,
     fromWIF = (\<lambda>s. if s = ''L1exampleWIF'' then Some ex_privateKey else None),
     isValidPrivateKey = (\<lambda>k. 0 < bytesToNumberBE k \<and> bytesToNumberBE k < CURVE_n),
     getPublicKey = ex_getPublicKey,
     p2tr = (\<lambda>pub. (''bc1pfunding'', [0x51, 0x20] @ pub)),
     getUtxos = (\<lambda>a. if a = ''bc1pfunding'' then Some ex_utxos else None),
     getUtxoDetails = (\<lambda>u. Some (replicate (vout u) None
        @ [Some (''5120'' @ map (\<lambda>c. if c = CHR ''b'' then CHR ''B'' else c) ex_Gx_hex)])),
     hashForWitnessV1 = (\<lambda>tx i scripts values ty leaf.
        if length scripts = length (fst tx) \<and> length values = length (fst tx)
        then Some (replicate 32 (of_nat i)) else None),
     schnorr_sign = ex_sign,
     schnorr_verify = (\<lambda>sig h pub. sig = pub @ h),
     extractTransaction = (\<lambda>p. if list_all (\<lambda>i. tapKeySig i \<noteq> None) (inputs p)
                                  then Some ''020000000001'' else None),
     answer = '' y'',
     broadcastTx = (\<lambda>hex. Some ''txid'')\<rparr>"

definition ex_utxos2 :: "utxo list" where
  "ex_utxos2 = [\<lparr>txid = ''aa'', vout = 0, val = 15000\<rparr>,
                \<lparr>txid = ''bb'', vout = 1, val = 50000\<rparr>,
                \<lparr>txid = ''cc'', vout = 0, val = 20000\<rparr>]"

definition ex_wpkh_script :: string where
  "ex_wpkh_script = ''0014751e76e8199196d454941c45d1b3a323f1433bd6''"

definition ex_wenv :: wpkh_env where
  "ex_wenv = \<lparr>
     w_config = ex_config,
     w_addresses = [''bc1qrecipient1'', ''bc1qrecipient2''],
     w_fees_recommended = Some \<lparr>halfHourFee = JNum 5, fastestFee = JNum 8\<rparr>,
     w_fromWIF = (\<lambda>s. if s = ''L1exampleWIF'' then Some (2 # Buffer_from_hex ex_Gx_hex)
                        else None),
     w_p2wpkh = (\<lambda>pk. ''bc1qfunding''),
     getUTXOs = (\<lambda>a. if a = ''bc1qfunding'' then Some ex_utxos else None),
     getTxDetails = (\<lambda>t. Some [Some ex_wpkh_script, Some ex_wpkh_script]),
     psbt_signInput = (\<lambda>i p.
        if i < length (inputs p)
           \<and> witnessUtxo_script (inputs p ! i) = Buffer_from_hex ex_wpkh_script
        then Some [0x30, of_nat i] else None),
     w_extractTransaction = (\<lambda>p. if list_all (\<lambda>i. partialSig i \<noteq> None) (inputs p)
                                    then Some ''020000000001'' else None),
     broadcastTransaction = (\<lambda>hex. Some ''txid'')\<rparr>"

definition ex_foreign_script :: string where
  "ex_foreign_script = ''5120a60869f0dbcf1dc659c9cecbaf8050135ea9e8cdc487053f1dc6880949dc684c''"

definition ex_env_foreign :: env where
  "ex_env_foreign = ex_env\<lparr>
     getUtxos := (\<lambda>a. if a = ''bc1pfunding'' then Some ex_utxos2 else None),
     getUtxoDetails := (\<lambda>u. if txid u = ''bb'' then Some [None, Some ex_foreign_script]
                              else Some [Some (''5120'' @ ex_Gx_hex)])\<rparr>"

definition ex_wenv_foreign :: wpkh_env where
  "ex_wenv_foreign = ex_wenv\<lparr>
     getTxDetails := (\<lambda>t. if t = ''bb''
        then Some [None, Some ''00140000000000000000000000000000000000000000'']
        else Some [Some ex_wpkh_script])\<rparr>"

definition ex_env_dust :: env where
  "ex_env_dust = ex_env\<lparr>
     getUtxos := (\<lambda>a. if a = ''bc1pfunding''
                       then Some [\<lparr>txid = ''aa'', vout = 0, val = 21085\<rparr>] else None)\<rparr>"

definition ex_env_546 :: env where
  "ex_env_546 = ex_env\<lparr>
     getUtxos := (\<lambda>a. if a = ''bc1pfunding''
                       then Some [\<lparr>txid = ''aa'', vout = 0, val = 21531\<rparr>] else None)\<rparr>"

definition ex_wenv_546 :: wpkh_env where
  "ex_wenv_546 = ex_wenv\<lparr>
     getUTXOs := (\<lambda>a. if a = ''bc1qfunding''
                       then Some [\<lparr>txid = ''aa'', vout = 0, val = 21451\<rparr>] else None)\<rparr>"




definition ex_env_two :: env where
  "ex_env_two = ex_env\<lparr>
     getUtxos := (\<lambda>a. if a = ''bc1pfunding'' then Some ex_utxos2 else None)\<rparr>"

definition ex_env_poor :: env where
  "ex_env_poor = ex_env\<lparr>
     getUtxos := (\<lambda>a. if a = ''bc1pfunding''
                       then Some [\<lparr>txid = ''aa'', vout = 0, val = 10000\<rparr>,
                                  \<lparr>txid = ''bb'', vout = 1, val = 5000\<rparr>] else None)\<rparr>"

definition ex_wenv_poor :: wpkh_env where
  "ex_wenv_poor = ex_wenv\<lparr>
     getUTXOs := (\<lambda>a. if a = ''bc1qfunding''
                       then Some [\<lparr>txid = ''aa'', vout = 0, val = 10000\<rparr>,
                                  \<lparr>txid = ''bb'', vout = 1, val = 5000\<rparr>] else None)\<rparr>"

section \<open>Auxiliary facts\<close>

subsection \<open>Rounding to a double\<close>

lemma binary_exponent_le:
  assumes "0 < a"
  shows "2 powi binary_exponent a \<le> a"
proof -
  obtain p d where pd: "quotient_of a = (p, d)" by (cases "quotient_of a") auto
  have d: "0 < d" using quotient_of_denom_pos[OF pd] .
  have a: "a = of_int p / of_int d" using quotient_of_div[OF pd] .
  have p: "0 < p"
    using assms d unfolding a by (simp add: zero_less_divide_iff)
  let ?k = "bitlen p - bitlen d"
  show ?thesis
  proof (cases "2 powi ?k \<le> a")
    case True
    then show ?thesis by (simp add: binary_exponent_def pd Let_def)
  next
    case False
    have bp: "1 \<le> bitlen p" using p by (auto simp: bitlen_alt_def)
    have lo: "(2 :: int) ^ nat (bitlen p - 1) \<le> p" using bitlen_bounds[OF p] by blast
    have hi: "d < (2 :: int) ^ nat (bitlen d)" using bitlen_bounds[OF d] by blast
    have lo': "(2 :: rat) ^ nat (bitlen p - 1) \<le> of_int p"
      using lo by (metis of_int_le_iff of_int_numeral of_int_power)
    have hi': "of_int d \<le> (2 :: rat) ^ nat (bitlen d)"
      using hi by (metis less_imp_le of_int_le_iff of_int_numeral of_int_power)
    have "(2 :: rat) powi (?k - 1) = 2 powi (bitlen p - 1) / 2 powi (bitlen d)"
      using power_int_diff[of "2 :: rat" "bitlen p - 1" "bitlen d"] by (simp add: algebra_simps)
    also have "\<dots> = 2 ^ nat (bitlen p - 1) / 2 ^ nat (bitlen d)"
      using bp bitlen_nonneg[of d] by (simp add: power_int_def)
    also have "\<dots> \<le> of_int p / 2 ^ nat (bitlen d)"
      using lo' by (simp add: divide_right_mono)
    also have "\<dots> \<le> of_int p / of_int d"
      using hi' p d by (simp add: frac_le)
    finally have "(2 :: rat) powi (?k - 1) \<le> a" unfolding a .
    with False show ?thesis by (simp add: binary_exponent_def pd Let_def)
  qed
qed

lemma round_half_even_ge: "of_int n \<le> x \<Longrightarrow> n \<le> round_half_even x"
proof -
  assume "of_int n \<le> x"
  then have "n \<le> \<lfloor>x\<rfloor>" by (simp add: le_floor_iff)
  then show ?thesis by (auto simp: round_half_even_def Let_def)
qed

lemma to_double_pos:
  assumes "0 < r"
  shows "0 < to_double r"
proof -
  let ?q = "binary_exponent \<bar>r\<bar> - 52"
  have pq: "(0 :: rat) < 2 powi ?q" by simp
  have "(2 :: rat) powi binary_exponent r \<le> r" using binary_exponent_le[OF assms] .
  moreover have "(2 :: rat) powi binary_exponent r = 2 powi ?q * 2 powi 52"
    using assms power_int_add[of "2 :: rat" "?q" 52] by simp
  ultimately have big: "2 powi 52 \<le> r / 2 powi ?q"
    using pq by (simp add: pos_le_divide_eq mult.commute)
  have one: "(1 :: rat) \<le> 2 powi 52" by (simp add: power_int_def)
  have "(1 :: rat) \<le> r / 2 powi ?q" using one big by (rule order_trans)
  then have "of_int 1 \<le> r / 2 powi ?q" by (simp only: of_int_1)
  then have "1 \<le> round_half_even (r / 2 powi ?q)" by (rule round_half_even_ge)
  then have "(0 :: rat) < of_int (round_half_even (r / 2 powi ?q))" by simp
  with pq assms show ?thesis by (simp add: to_double_def Let_def)
qed

subsection \<open>Fees and the selection loop\<close>

lemma estimateTxVbytes_int:
  "estimateTxVbytes i k = (115 * int i + 86 * int k + 22) div 2"
proof -
  have "(21 / 2 :: rat) + of_nat i * (115 / 2) + of_nat k * 43
        = of_int (115 * int i + 86 * int k + 21) / of_int 2"
    by (simp add: field_simps)
  then have "estimateTxVbytes i k = - ((- (115 * int i + 86 * int k + 21)) div 2)"
    unfolding estimateTxVbytes_def by (simp only: ceiling_divide_eq_div)
  then show ?thesis by linarith
qed

lemma BigInt_of_int [simp]: "BigInt (Some (of_int a)) = Inr a"
  by (simp add: BigInt_def)

lemma select_loop_spec:
  "select_loop rate n toSend us (sel0, t0, f0) = Inr (sel, t, f) \<Longrightarrow>
   \<exists>k\<le>length us. sel = sel0 @ take k us \<and> t = t0 + sum_list (map val (take k us)) \<and>
     (k = 0 \<longrightarrow> f = f0 \<and> us = []) \<and>
     (0 < k \<longrightarrow> estimatedFee rate (length sel0 + k) (n + 1) = Inr f) \<and>
     (\<forall>j. 0 < j \<and> j < k \<longrightarrow>
        (\<exists>fj. estimatedFee rate (length sel0 + j) (n + 1) = Inr fj \<and>
              t0 + sum_list (map val (take j us)) < toSend + fj)) \<and>
     (k < length us \<longrightarrow> t \<ge> toSend + f)"
proof (induction us arbitrary: sel0 t0 f0)
  case Nil
  then show ?case by simp
next
  case (Cons u us)
  from Cons.prems obtain f1 where f1: "estimatedFee rate (Suc (length sel0)) (n + 1) = Inr f1"
    by (auto simp: Let_def split: sum.splits)
  show ?case
  proof (cases "t0 + val u \<ge> toSend + f1")
    case True
    with Cons.prems f1 have "sel = sel0 @ [u]" "t = t0 + val u" "f = f1"
      by (auto simp: Let_def)
    with f1 True show ?thesis
      by (intro exI[of _ 1]) auto
  next
    case False
    with Cons.prems f1 have rec: "select_loop rate n toSend us (sel0 @ [u], t0 + val u, f1) = Inr (sel, t, f)"
      by (auto simp: Let_def)
    from Cons.IH[OF rec] obtain k where k: "k \<le> length us" "sel = (sel0 @ [u]) @ take k us"
      "t = t0 + val u + sum_list (map val (take k us))"
      "k = 0 \<longrightarrow> f = f1 \<and> us = []"
      "0 < k \<longrightarrow> estimatedFee rate (length (sel0 @ [u]) + k) (n + 1) = Inr f"
      "\<forall>j. 0 < j \<and> j < k \<longrightarrow>
        (\<exists>fj. estimatedFee rate (length (sel0 @ [u]) + j) (n + 1) = Inr fj \<and>
              t0 + val u + sum_list (map val (take j us)) < toSend + fj)"
      "k < length us \<longrightarrow> t \<ge> toSend + f"
      by blast
    have fee: "estimatedFee rate (length sel0 + Suc k) (n + 1) = Inr f"
      using k(4,5) f1 by (cases k) auto
    have pre: "\<exists>fj. estimatedFee rate (length sel0 + j) (n + 1) = Inr fj \<and>
              t0 + sum_list (map val (take j (u # us))) < toSend + fj"
      if "0 < j" "j < Suc k" for j
    proof (cases j)
      case 0
      with that show ?thesis by simp
    next
      case (Suc j')
      show ?thesis
      proof (cases j')
        case 0
        with Suc f1 False show ?thesis by auto
      next
        case (Suc j'')
        with \<open>j = Suc j'\<close> that k(6) have "\<exists>fj. estimatedFee rate (length (sel0 @ [u]) + j') (n + 1) = Inr fj \<and>
              t0 + val u + sum_list (map val (take j' us)) < toSend + fj"
          by auto
        with \<open>j = Suc j'\<close> show ?thesis by (auto simp: add.assoc)
      qed
    qed
    show ?thesis
      using k(1,2,3,7) fee pre
      by (intro exI[of _ "Suc k"]) (auto simp: add.assoc)
  qed
qed

lemma selectUtxos_covers:
  "selectUtxos rate n toSend utxos = Inr (sel, t, f) \<Longrightarrow> toSend + f \<le> t"
  by (auto simp: selectUtxos_def split: sum.splits prod.splits if_splits)

lemma estimatedFee_positive:
  assumes "ToNumber rate = Some r" "0 < r" "estimatedFee rate i k = Inr f"
  shows "0 < f"
proof -
  have v: "0 < estimateTxVbytes i k"
    unfolding estimateTxVbytes_int by linarith
  from assms(1,3) have "of_int f = to_double (of_int (estimateTxVbytes i k) * r)"
    by (auto simp: estimatedFee_def js_times_def BigInt_def split: if_splits)
  moreover have "0 < to_double (of_int (estimateTxVbytes i k) * r)"
    using v assms(2) by (intro to_double_pos) simp
  ultimately have "(0::rat) < of_int f" by simp
  then show ?thesis by simp
qed

subsection \<open>Adding inputs\<close>

lemma checkedInput_unsigned:
  "checkedInput E x pub u = Inr inp \<Longrightarrow> tapKeySig inp = None"
  by (auto simp: checkedInput_def Let_def split: option.splits if_splits)

lemma checkedInput_mismatch:
  assumes "getUtxoDetails E u = Some d" "vout u < length d" "d ! vout u = Some s" "s \<noteq> []"
      and "toString_hex (Buffer_from_hex s) \<noteq> x"
  shows "checkedInput E x pub u =
           Inl (ScriptMismatch (txid u) (vout u) (toString_hex (Buffer_from_hex s)) x)"
  using assms by (simp add: checkedInput_def Let_def)

lemma addInputs_outputs:
  "addInputs E x pub sel p = (r, p') \<Longrightarrow> outputs p' = outputs p"
  by (induction sel arbitrary: p) (auto split: sum.splits)

lemma addInputs_unsigned:
  "addInputs E x pub sel p = (r, p') \<Longrightarrow> \<forall>i\<in>set (inputs p). tapKeySig i = None \<Longrightarrow>
   \<forall>i\<in>set (inputs p'). tapKeySig i = None"
proof (induction sel arbitrary: p)
  case Nil
  then show ?case by simp
next
  case (Cons u us)
  show ?case
  proof (cases "checkedInput E x pub u")
    case (Inl e)
    with Cons.prems show ?thesis by simp
  next
    case (Inr inp)
    with Cons.prems have "addInputs E x pub us (p\<lparr>inputs := inputs p @ [inp]\<rparr>) = (r, p')"
      by simp
    moreover have "\<forall>i\<in>set (inputs (p\<lparr>inputs := inputs p @ [inp]\<rparr>)). tapKeySig i = None"
      using Cons.prems(2) checkedInput_unsigned[OF Inr] by simp
    ultimately show ?thesis by (rule Cons.IH)
  qed
qed

lemma addInputs_length:
  "addInputs E x pub sel p = (None, p') \<Longrightarrow> length (inputs p') = length (inputs p) + length sel"
  by (induction sel arbitrary: p) (auto split: sum.splits)

lemma addInputs_prefix:
  "addInputs E x pub sel p = (r, p') \<Longrightarrow>
   \<exists>k\<le>length sel. map (\<lambda>i. (hash i, index i)) (inputs p') =
      map (\<lambda>i. (hash i, index i)) (inputs p) @ map (\<lambda>u. (txid u, vout u)) (take k sel)
      \<and> (r \<noteq> None \<longrightarrow> k < length sel \<and> checkedInput E x pub (sel ! k) = Inl (the r))"
proof (induction sel arbitrary: p)
  case Nil
  then show ?case by auto
next
  case (Cons u us)
  show ?case
  proof (cases "checkedInput E x pub u")
    case (Inl e)
    with Cons.prems show ?thesis by (intro exI[of _ 0]) auto
  next
    case (Inr inp)
    then have hi: "hash inp = txid u" "index inp = vout u"
      by (auto simp: checkedInput_def Let_def split: option.splits if_splits)
    from Inr Cons.prems have "addInputs E x pub us (p\<lparr>inputs := inputs p @ [inp]\<rparr>) = (r, p')"
      by simp
    from Cons.IH[OF this] obtain k where k: "k \<le> length us"
      "map (\<lambda>i. (hash i, index i)) (inputs p') =
         map (\<lambda>i. (hash i, index i)) (inputs (p\<lparr>inputs := inputs p @ [inp]\<rparr>))
         @ map (\<lambda>u. (txid u, vout u)) (take k us)"
      "r \<noteq> None \<longrightarrow> k < length us \<and> checkedInput E x pub (us ! k) = Inl (the r)"
      by blast
    then show ?thesis using hi by (intro exI[of _ "Suc k"]) auto
  qed
qed

lemma addInputs_append:
  "addInputs E x pub (pre @ rest) p =
     (case addInputs E x pub pre p of
        (None, p1) \<Rightarrow> addInputs E x pub rest p1
      | (Some e, p1) \<Rightarrow> (Some e, p1))"
  by (induction pre arbitrary: p) (auto split: sum.splits)

subsection \<open>Adding outputs\<close>

lemma addOutputs_outputs:
  "outputs (addOutputs as v p) = outputs p @ map (\<lambda>a. \<lparr>address = trim a, amount = v\<rparr>) as"
  by (induction as arbitrary: p) (auto simp: addOutput_def)

lemma addOutputs_inputs: "inputs (addOutputs as v p) = inputs p"
  by (induction as arbitrary: p) (auto simp: addOutput_def)

lemma addOutput_inputs: "inputs (addOutput a v p) = inputs p"
  by (simp add: addOutput_def)

subsection \<open>Signing\<close>

lemma signInput_outputs:
  "signInput E sel key pub i p = (r, p') \<Longrightarrow> outputs p' = outputs p"
  by (auto simp: signInput_def split: option.splits if_splits prod.splits)

lemma signInputs_outputs:
  "signInputs E sel key pub is p = (r, p') \<Longrightarrow> outputs p' = outputs p"
proof (induction "is" arbitrary: p)
  case Nil
  then show ?case by simp
next
  case (Cons i rest)
  obtain r1 p1 where s: "signInput E sel key pub i p = (r1, p1)" by fastforce
  with Cons show ?case
    by (cases r1) (auto dest: signInput_outputs)
qed

lemma map_update_same:
  assumes "f y = f (xs ! i)"
  shows "map f (xs[i := y]) = map f xs"
proof (cases "i < length xs")
  case True
  with assms show ?thesis by (simp add: map_update list_update_same_conv)
next
  case False
  then have "xs[i := y] = xs" by (simp add: list_update_beyond)
  then show ?thesis by simp
qed

lemma cached_tx_sig [simp]:
  "cached_tx (p\<lparr>inputs := (inputs p)[i := (inputs p ! i)\<lparr>tapKeySig := s, partialSig := t\<rparr>]\<rparr>)
     = cached_tx p"
  by (simp add: cached_tx_def map_update_same)

lemma sighash_prevouts_Some:
  "sighash_prevouts sel p i = Some (scripts, values) \<Longrightarrow>
   i < length (inputs p) \<and> i < length sel
   \<and> scripts = [witnessUtxo_script (inputs p ! i)]
   \<and> values = [witnessUtxo_value (inputs p ! i)]"
  by (auto simp: sighash_prevouts_def Let_def split: if_splits)

lemma signInput_None:
  assumes "signInput E sel key pub i p = (None, p')"
  shows "i < length (inputs p) \<and> i < length sel \<and>
     (\<exists>h sig. hashForWitnessV1 E (cached_tx p) i [witnessUtxo_script (inputs p ! i)]
                  [witnessUtxo_value (inputs p ! i)] SIGHASH_DEFAULT genesisBlockHash = Some h
        \<and> schnorr_sign E i h key = Some sig \<and> schnorr_verify E sig h pub
        \<and> p' = p\<lparr>inputs := (inputs p)[i := (inputs p ! i)\<lparr>tapKeySig := Some sig,
                                                           partialSig := None\<rparr>]\<rparr>)"
proof -
  from assms obtain scripts vs where sp: "sighash_prevouts sel p i = Some (scripts, vs)"
    by (auto simp: signInput_def split: option.splits)
  note f = sighash_prevouts_Some[OF sp]
  from assms sp f show ?thesis
    by (auto simp: signInput_def split: option.splits if_splits)
qed

lemma signInputs_verified:
  assumes "signInputs E sel key pub is p = (None, p')"
  shows "length (inputs p') = length (inputs p) \<and> cached_tx p' = cached_tx p
     \<and> map witnessUtxo_script (inputs p') = map witnessUtxo_script (inputs p)
     \<and> map witnessUtxo_value (inputs p') = map witnessUtxo_value (inputs p)
     \<and> (\<forall>i\<in>set is. i < length (inputs p') \<and>
          (\<exists>h sig. tapKeySig (inputs p' ! i) = Some sig
             \<and> hashForWitnessV1 E (cached_tx p') i [witnessUtxo_script (inputs p' ! i)]
                  [witnessUtxo_value (inputs p' ! i)] SIGHASH_DEFAULT genesisBlockHash = Some h
             \<and> schnorr_sign E i h key = Some sig \<and> schnorr_verify E sig h pub))
     \<and> (\<forall>i. i < length (inputs p) \<and>
          (\<exists>h sig. tapKeySig (inputs p ! i) = Some sig
             \<and> hashForWitnessV1 E (cached_tx p) i [witnessUtxo_script (inputs p ! i)]
                  [witnessUtxo_value (inputs p ! i)] SIGHASH_DEFAULT genesisBlockHash = Some h
             \<and> schnorr_sign E i h key = Some sig \<and> schnorr_verify E sig h pub)
          \<longrightarrow> (\<exists>h sig. tapKeySig (inputs p' ! i) = Some sig
             \<and> hashForWitnessV1 E (cached_tx p') i [witnessUtxo_script (inputs p' ! i)]
                  [witnessUtxo_value (inputs p' ! i)] SIGHASH_DEFAULT genesisBlockHash = Some h
             \<and> schnorr_sign E i h key = Some sig \<and> schnorr_verify E sig h pub))"
  using assms
proof (induction "is" arbitrary: p)
  case Nil
  then show ?case by simp
next
  case (Cons j rest)
  let ?V = "\<lambda>q i. \<exists>h sig. tapKeySig (inputs q ! i) = Some sig
             \<and> hashForWitnessV1 E (cached_tx q) i [witnessUtxo_script (inputs q ! i)]
                  [witnessUtxo_value (inputs q ! i)] SIGHASH_DEFAULT genesisBlockHash = Some h
             \<and> schnorr_sign E i h key = Some sig \<and> schnorr_verify E sig h pub"
  from Cons.prems obtain p1 where s1: "signInput E sel key pub j p = (None, p1)"
    and s2: "signInputs E sel key pub rest p1 = (None, p')"
    by (auto split: prod.splits option.splits)
  from signInput_None[OF s1] obtain h sig where j: "j < length (inputs p)"
    and h: "hashForWitnessV1 E (cached_tx p) j [witnessUtxo_script (inputs p ! j)]
                  [witnessUtxo_value (inputs p ! j)] SIGHASH_DEFAULT genesisBlockHash = Some h"
    "schnorr_sign E j h key = Some sig" "schnorr_verify E sig h pub"
    and p1: "p1 = p\<lparr>inputs := (inputs p)[j := (inputs p ! j)\<lparr>tapKeySig := Some sig,
                                                           partialSig := None\<rparr>]\<rparr>"
    by blast
  have len1: "length (inputs p1) = length (inputs p)" by (simp add: p1)
  have tx1: "cached_tx p1 = cached_tx p" by (simp add: p1)
  have sc1: "map witnessUtxo_script (inputs p1) = map witnessUtxo_script (inputs p)"
    by (simp add: p1 map_update_same)
  have va1: "map witnessUtxo_value (inputs p1) = map witnessUtxo_value (inputs p)"
    by (simp add: p1 map_update_same)
  have nth1: "witnessUtxo_script (inputs p1 ! i) = witnessUtxo_script (inputs p ! i)"
             "witnessUtxo_value (inputs p1 ! i) = witnessUtxo_value (inputs p ! i)"
    if "i < length (inputs p)" for i
    using that j by (auto simp: p1 nth_list_update)
  have Vj: "?V p1 j"
    using j h tx1 nth1[OF j] by (simp add: p1)
  have keep: "?V p1 i" if "i < length (inputs p)" "?V p i" for i
  proof (cases "i = j")
    case True
    with Vj show ?thesis by simp
  next
    case False
    then have "tapKeySig (inputs p1 ! i) = tapKeySig (inputs p ! i)"
      by (simp add: p1)
    with that tx1 nth1[OF that(1)] show ?thesis by simp
  qed
  note IH = Cons.IH[OF s2]
  from IH have len: "length (inputs p') = length (inputs p1)" by blast
  from IH have tx: "cached_tx p' = cached_tx p1" by blast
  from IH have sc: "map witnessUtxo_script (inputs p') = map witnessUtxo_script (inputs p1)" by blast
  from IH have va: "map witnessUtxo_value (inputs p') = map witnessUtxo_value (inputs p1)" by blast
  from IH have rest: "\<forall>i\<in>set rest. i < length (inputs p') \<and> ?V p' i" by blast
  from IH have pres: "\<forall>i. i < length (inputs p1) \<and> ?V p1 i \<longrightarrow> ?V p' i" by blast
  have Vj': "?V p' j" using pres Vj j len1 by simp
  have all: "\<forall>i\<in>set (j # rest). i < length (inputs p') \<and> ?V p' i"
    using rest Vj' j len len1 by simp
  have pres': "\<forall>i. i < length (inputs p) \<and> ?V p i \<longrightarrow> ?V p' i"
    using keep pres len1 by simp
  show ?case
    using len len1 tx tx1 sc sc1 va va1 all pres' by simp
qed

subsection \<open>Bytes and numbers\<close>

lemma bytesToNumberBE_snoc:
  "bytesToNumberBE (xs @ [b]) = bytesToNumberBE xs * 256 + uint b"
  by (simp add: bytesToNumberBE_def)

lemma uint_byte_of_int: "uint (of_int (n mod 256) :: byte) = n mod 256"
  by (simp add: uint_word_of_int_eq take_bit_eq_mod)

lemma bytesToNumberBE_be_bytes:
  "bytesToNumberBE (be_bytes len n) = n mod 256 ^ len"
proof (induction len arbitrary: n)
  case 0
  then show ?case by (simp add: bytesToNumberBE_def)
next
  case (Suc len)
  have "bytesToNumberBE (be_bytes (Suc len) n)
        = (n div 256 mod 256 ^ len) * 256 + n mod 256"
    by (simp add: bytesToNumberBE_snoc uint_byte_of_int Suc.IH)
  also have "\<dots> = n mod (256 * 256 ^ len)"
    by (simp add: zmod_zmult2_eq)
  finally show ?case by simp
qed

lemma length_be_bytes [simp]: "length (be_bytes len n) = len"
  by (induction len arbitrary: n) auto

lemma privateKeyToUse_even:
  "(case full of b # _ \<Rightarrow> b \<noteq> 3 | [] \<Rightarrow> True) \<Longrightarrow> privateKeyToUse full priv = Inr priv"
  by (auto simp: privateKeyToUse_def split: list.splits)

subsection \<open>How a run of the taproot script decomposes\<close>

lemma build_from_selection_Inr:
  assumes "build_from_selection E priv pub fromA x sats toSend (sel, ti, fee) = (Inr b, p)"
  shows "\<exists>p1 p3 key. addInputs E x pub sel \<lparr>inputs = [], outputs = []\<rparr> = (None, p1)
     \<and> 0 \<le> ti - toSend - fee
     \<and> p3 = (if ti - toSend - fee \<ge> 546
              then addOutput fromA (ti - toSend - fee) (addOutputs (addresses E) sats p1)
              else addOutputs (addresses E) sats p1)
     \<and> privateKeyToUse (getPublicKey E priv) priv = Inr key
     \<and> signInputs E sel key pub [0..<length (inputs p3)] p3 = (None, p)
     \<and> extractTransaction E p = Some (b_txHex b)
     \<and> b_totalInput b = ti \<and> b_totalAmountToSend b = toSend \<and> b_finalFee b = fee
     \<and> b_changeValue b = ti - toSend - fee"
  using assms unfolding build_from_selection_def Let_def
  by (auto split: prod.splits option.splits sum.splits if_splits)

lemma checkedInput_error:
  "checkedInput E x pub u = Inl e \<Longrightarrow>
   e = FetchError \<or> e = MissingScript (txid u) (vout u)
   \<or> (\<exists>h. e = ScriptMismatch (txid u) (vout u) h x)"
  by (auto simp: checkedInput_def Let_def split: option.splits if_splits)

lemma addInputs_error:
  "addInputs E x pub sel p = (Some e, p') \<Longrightarrow>
   e = FetchError \<or> (\<exists>t v. e = MissingScript t v) \<or> (\<exists>t v h. e = ScriptMismatch t v h x)"
proof (induction sel arbitrary: p)
  case Nil
  then show ?case by simp
next
  case (Cons u us)
  show ?case
  proof (cases "checkedInput E x pub u")
    case (Inl e')
    with Cons.prems have "e = e'" by simp
    with checkedInput_error[OF Inl] show ?thesis by blast
  next
    case (Inr inp)
    with Cons show ?thesis by simp
  qed
qed

lemma privateKeyToUse_error: "privateKeyToUse full priv = Inl e \<Longrightarrow> e = TweakFailed"
  by (auto simp: privateKeyToUse_def Let_def split: if_splits option.splits)

lemma signInput_error:
  "signInput E sel key pub i p = (Some e, p') \<Longrightarrow>
   e = SighashFailed i \<or> e = SignOrVerifyFailed i"
  by (auto simp: signInput_def split: option.splits if_splits prod.splits)

lemma signInputs_error:
  "signInputs E sel key pub is p = (Some e, p') \<Longrightarrow>
   (\<exists>i. e = SighashFailed i) \<or> (\<exists>i. e = SignOrVerifyFailed i)"
proof (induction "is" arbitrary: p)
  case Nil
  then show ?case by simp
next
  case (Cons i rest)
  obtain r1 p1 where s: "signInput E sel key pub i p = (r1, p1)" by fastforce
  show ?case
  proof (cases r1)
    case None
    with s Cons show ?thesis by simp
  next
    case (Some e')
    with s Cons.prems have "e = e'" by simp
    with s Some signInput_error show ?thesis by blast
  qed
qed

lemma build_from_selection_Inl:
  assumes "build_from_selection E priv pub fromA x sats toSend (sel, ti, fee) = (Inl e, p)"
      and "toSend + fee \<le> ti"
  shows "e \<noteq> NegativeChange c"
  using assms unfolding build_from_selection_def Let_def
  by (auto split: prod.splits option.splits sum.splits if_splits
           dest: addInputs_error privateKeyToUse_error signInputs_error)

lemma BigInt_error: "BigInt x = Inl e \<Longrightarrow> e = RangeError"
  by (auto simp: BigInt_def split: option.splits if_splits)

lemma estimatedFee_error: "estimatedFee rate i k = Inl e \<Longrightarrow> e = RangeError"
  unfolding estimatedFee_def by (rule BigInt_error)

lemma select_loop_error:
  "select_loop rate n toSend us st = Inl e \<Longrightarrow> e = RangeError"
proof (induction us arbitrary: st)
  case Nil
  then show ?case by simp
next
  case (Cons u us)
  obtain sel t f where st: "st = (sel, t, f)" by (cases st) auto
  show ?case
  proof (cases "estimatedFee rate (length (sel @ [u])) (n + 1)")
    case (Inl e')
    with Cons.prems st have "e = e'" by (simp add: Let_def)
    with Inl estimatedFee_error show ?thesis by blast
  next
    case (Inr f')
    with Cons.prems st Cons.IH show ?thesis
      by (auto simp: Let_def split: if_splits)
  qed
qed

lemma selectUtxos_error:
  "selectUtxos rate n toSend utxos = Inl e \<Longrightarrow>
   e = RangeError \<or> (\<exists>a b. e = InsufficientFunds a b)"
  unfolding selectUtxos_def
  by (auto split: sum.splits prod.splits if_splits
           dest: estimatedFee_error select_loop_error)

lemma initKeys_error: "initKeys E = Inl e \<Longrightarrow> e = InvalidKey"
  by (auto simp: initKeys_def split: option.splits if_splits)

lemma ToNumber_truthy: "truthy v \<Longrightarrow> \<exists>r. ToNumber v = Some r"
  by (cases v) auto

lemma amountToSendBTC_number: "\<exists>r. ToNumber (amountToSendBTC cfg) = Some r"
proof (cases "truthy (sendAmountBTC cfg)")
  case True
  then show ?thesis
    using ToNumber_truthy by (simp add: amountToSendBTC_def js_or_def)
next
  case False
  then have "amountToSendBTC cfg = JNum (to_double (1 / 10000))"
    by (simp add: amountToSendBTC_def js_or_def)
  then show ?thesis by (metis ToNumber.simps(4))
qed

lemma amountInSats_Some: "\<exists>sats. amountInSats cfg = Some sats"
proof -
  from amountToSendBTC_number obtain r where "ToNumber (amountToSendBTC cfg) = Some r" by blast
  then show ?thesis by (simp add: amountInSats_def js_times_def Math_floor_def)
qed

lemma batchSend_build_cases:
  assumes "batchSend_build E = (r, p)"
  shows "(\<exists>e. r = Inl e \<and> p = \<lparr>inputs = [], outputs = []\<rparr>
            \<and> (e = InvalidKey \<or> e = FetchError \<or> e = NoUtxos \<or> e = RangeError
                \<or> (\<exists>a b. e = InsufficientFunds a b)))
       \<or> (\<exists>priv pub fromA out utxos sats sel.
            initKeys E = Inr (priv, pub) \<and> p2tr E pub = (fromA, out)
            \<and> getUtxos E fromA = Some utxos \<and> utxos \<noteq> []
            \<and> amountInSats (config E) = Some sats
            \<and> selectUtxos (getFeeRate (config E) (fees_recommended E)) (length (addresses E))
                 (sats * int (length (addresses E))) utxos = Inr sel
            \<and> build_from_selection E priv pub fromA (toString_hex out) sats
                 (sats * int (length (addresses E))) sel = (r, p))"
proof (cases "initKeys E")
  case (Inl e)
  with assms initKeys_error[OF Inl] show ?thesis
    by (auto simp: batchSend_build_def Let_def)
next
  case (Inr kp)
  obtain priv pub where kp: "kp = (priv, pub)" by (cases kp) auto
  obtain fromA out where pt: "p2tr E pub = (fromA, out)" by (cases "p2tr E pub") auto
  obtain sats where am: "amountInSats (config E) = Some sats"
    using amountInSats_Some by blast
  show ?thesis
  proof (cases "getUtxos E fromA")
    case None
    with assms Inr kp pt show ?thesis
      by (auto simp: batchSend_build_def Let_def)
  next
    case (Some utxos)
    show ?thesis
    proof (cases "utxos = []")
      case True
      with assms Inr kp pt Some show ?thesis
        by (auto simp: batchSend_build_def Let_def)
    next
      case False
      show ?thesis
      proof (cases "selectUtxos (getFeeRate (config E) (fees_recommended E))
                      (length (addresses E)) (sats * int (length (addresses E))) utxos")
        case (Inl e)
        with assms Inr kp pt Some False am selectUtxos_error[OF Inl] show ?thesis
          by (auto simp: batchSend_build_def Let_def)
      next
        case sel: (Inr sel)
        with assms Inr kp pt Some False am have
          "build_from_selection E priv pub fromA (toString_hex out) sats
             (sats * int (length (addresses E))) sel = (r, p)"
          by (auto simp: batchSend_build_def Let_def)
        with Inr kp pt Some False am sel show ?thesis by blast
      qed
    qed
  qed
qed

lemma batchSend_build_Inr:
  assumes "batchSend_build E = (Inr b, p)"
  shows "\<exists>priv pub fromA out utxos sats sel.
     initKeys E = Inr (priv, pub) \<and> p2tr E pub = (fromA, out)
     \<and> getUtxos E fromA = Some utxos \<and> utxos \<noteq> []
     \<and> amountInSats (config E) = Some sats
     \<and> selectUtxos (getFeeRate (config E) (fees_recommended E)) (length (addresses E))
          (sats * int (length (addresses E))) utxos = Inr sel
     \<and> build_from_selection E priv pub fromA (toString_hex out) sats
          (sats * int (length (addresses E))) sel = (Inr b, p)"
  using batchSend_build_cases[OF assms] by auto

subsection \<open>Hexadecimal text\<close>

lemma hexval_hexDigits: "n < 16 \<Longrightarrow> hexval (hexDigits ! n) = Some n"
proof -
  have "list_all (\<lambda>n. hexval (hexDigits ! n) = Some n) [0..<16]"
    by code_simp
  then show "n < 16 \<Longrightarrow> hexval (hexDigits ! n) = Some n"
    by (simp add: list_all_iff)
qed

lemma Buffer_from_hex_byte:
  "Buffer_from_hex (byte_hex b @ rest) = b # Buffer_from_hex rest"
proof -
  have lt: "unat b < 256" using unsigned_less[of b, where ?'a = nat] by simp
  then have hi: "unat b div 16 < 16" by simp
  have lo: "unat b mod 16 < 16" by simp
  have "(of_nat (16 * (unat b div 16) + unat b mod 16) :: byte) = of_nat (unat b)"
    by (simp only: mult_div_mod_eq)
  then have v: "(of_nat (16 * (unat b div 16) + unat b mod 16) :: byte) = b"
    by simp
  show ?thesis
    by (simp add: byte_hex_def hexval_hexDigits[OF hi] hexval_hexDigits[OF lo] v)
qed

lemma Buffer_from_hex_toString_hex: "Buffer_from_hex (toString_hex bytes) = bytes"
  by (induction bytes) (simp_all add: toString_hex_def Buffer_from_hex_byte)

lemma toString_hex_inj: "toString_hex a = toString_hex b \<Longrightarrow> a = b"
  by (metis Buffer_from_hex_toString_hex)

lemma checkedInput_script:
  "checkedInput E (toString_hex out) pub u = Inr inp \<Longrightarrow> witnessUtxo_script inp = out"
  by (auto simp: checkedInput_def Let_def Buffer_from_hex_toString_hex
           split: option.splits if_splits)

lemma addInputs_scripts:
  "addInputs E (toString_hex out) pub sel p = (r, p') \<Longrightarrow>
   \<forall>i\<in>set (inputs p). witnessUtxo_script i = out \<Longrightarrow>
   \<forall>i\<in>set (inputs p'). witnessUtxo_script i = out"
proof (induction sel arbitrary: p)
  case Nil
  then show ?case by simp
next
  case (Cons u us)
  show ?case
  proof (cases "checkedInput E (toString_hex out) pub u")
    case (Inl e)
    with Cons.prems show ?thesis by simp
  next
    case (Inr inp)
    with Cons.prems have "addInputs E (toString_hex out) pub us (p\<lparr>inputs := inputs p @ [inp]\<rparr>) = (r, p')"
      by simp
    moreover have "\<forall>i\<in>set (inputs (p\<lparr>inputs := inputs p @ [inp]\<rparr>)). witnessUtxo_script i = out"
      using Cons.prems(2) checkedInput_script[OF Inr] by simp
    ultimately show ?thesis by (rule Cons.IH)
  qed
qed

lemma addInputs_outpoints:
  assumes "addInputs E x pub sel p = (None, p')"
  shows "map (\<lambda>i. (hash i, index i)) (inputs p')
         = map (\<lambda>i. (hash i, index i)) (inputs p) @ map (\<lambda>u. (txid u, vout u)) sel"
proof -
  from addInputs_prefix[OF assms] obtain k where k: "k \<le> length sel"
    "map (\<lambda>i. (hash i, index i)) (inputs p') =
      map (\<lambda>i. (hash i, index i)) (inputs p) @ map (\<lambda>u. (txid u, vout u)) (take k sel)"
    by blast
  from k(2) have "length (inputs p') = length (inputs p) + length (take k sel)"
    by (metis length_append length_map)
  with addInputs_length[OF assms] k(1) have "k = length sel" by simp
  with k(2) show ?thesis by simp
qed

lemma sum_list_const_amount:
  "sum_list (map (\<lambda>a. (v :: int)) as) = v * int (length as)"
  by (induction as) (auto simp: algebra_simps)

lemma batchSend_build_outputs:
  assumes "batchSend_build E = (Inr b, p)"
  shows "\<exists>priv pub fromA out sats.
       initKeys E = Inr (priv, pub) \<and> p2tr E pub = (fromA, out)
     \<and> amountInSats (config E) = Some sats
     \<and> outputs p = map (\<lambda>a. \<lparr>address = trim a, amount = sats\<rparr>) (addresses E)
                    @ (if b_changeValue b \<ge> 546
                       then [\<lparr>address = fromA, amount = b_changeValue b\<rparr>] else [])
     \<and> b_totalAmountToSend b = sats * int (length (addresses E))
     \<and> b_changeValue b = b_totalInput b - b_totalAmountToSend b - b_finalFee b
     \<and> 0 \<le> b_changeValue b"
proof -
  from batchSend_build_Inr[OF assms] obtain priv pub fromA out sats sel where
    k: "initKeys E = Inr (priv, pub)" "p2tr E pub = (fromA, out)"
       "amountInSats (config E) = Some sats"
    and bs: "build_from_selection E priv pub fromA (toString_hex out) sats
          (sats * int (length (addresses E))) sel = (Inr b, p)"
    by blast
  obtain sl ti fee where sel: "sel = (sl, ti, fee)" by (cases sel) auto
  from build_from_selection_Inr[OF bs[unfolded sel]] obtain p1 p3 key where
    a: "addInputs E (toString_hex out) pub sl \<lparr>inputs = [], outputs = []\<rparr> = (None, p1)"
    and ch: "0 \<le> ti - sats * int (length (addresses E)) - fee"
    and p3: "p3 = (if ti - sats * int (length (addresses E)) - fee \<ge> 546
              then addOutput fromA (ti - sats * int (length (addresses E)) - fee)
                     (addOutputs (addresses E) sats p1)
              else addOutputs (addresses E) sats p1)"
    and sg: "signInputs E sl key pub [0..<length (inputs p3)] p3 = (None, p)"
    and b: "b_totalInput b = ti" "b_totalAmountToSend b = sats * int (length (addresses E))"
       "b_finalFee b = fee" "b_changeValue b = ti - sats * int (length (addresses E)) - fee"
    by blast
  have o1: "outputs p1 = []" using addInputs_outputs[OF a] by simp
  have o3: "outputs p3 = map (\<lambda>a. \<lparr>address = trim a, amount = sats\<rparr>) (addresses E)
                    @ (if b_changeValue b \<ge> 546
                       then [\<lparr>address = fromA, amount = b_changeValue b\<rparr>] else [])"
    by (simp add: p3 b addOutputs_outputs o1 addOutput_def)
  have "outputs p = outputs p3" using signInputs_outputs[OF sg] .
  with o3 k b ch show ?thesis by auto
qed

subsection \<open>An exhausted candidate list\<close>

lemma select_loop_exhausted:
  assumes "us \<noteq> []"
    and "\<forall>k. 0 < k \<and> k \<le> length us \<longrightarrow>
           (\<exists>f. estimatedFee rate (length sel0 + k) (n + 1) = Inr f
               \<and> t0 + sum_list (map val (take k us)) < toSend + f)"
    and "estimatedFee rate (length sel0 + length us) (n + 1) = Inr fee"
  shows "select_loop rate n toSend us (sel0, t0, f0)
         = Inr (sel0 @ us, t0 + sum_list (map val us), fee)"
  using assms
proof (induction us arbitrary: sel0 t0 f0)
  case Nil
  then show ?case by simp
next
  case (Cons u us)
  from Cons.prems(2)[rule_format, of 1] obtain f1 where
    f1: "estimatedFee rate (Suc (length sel0)) (n + 1) = Inr f1"
    and lt: "t0 + val u < toSend + f1"
    by auto
  show ?case
  proof (cases "us = []")
    case True
    with Cons.prems(3) f1 have "fee = f1" by simp
    with True f1 lt show ?thesis by (simp add: Let_def)
  next
    case False
    have h2: "\<forall>k. 0 < k \<and> k \<le> length us \<longrightarrow>
           (\<exists>f. estimatedFee rate (length (sel0 @ [u]) + k) (n + 1) = Inr f
               \<and> (t0 + val u) + sum_list (map val (take k us)) < toSend + f)"
    proof (intro allI impI)
      fix k assume k: "0 < k \<and> k \<le> length us"
      with Cons.prems(2)[rule_format, of "Suc k"] show
        "\<exists>f. estimatedFee rate (length (sel0 @ [u]) + k) (n + 1) = Inr f
               \<and> (t0 + val u) + sum_list (map val (take k us)) < toSend + f"
        by (auto simp: add.assoc)
    qed
    have h3: "estimatedFee rate (length (sel0 @ [u]) + length us) (n + 1) = Inr fee"
      using Cons.prems(3) by simp
    from Cons.IH[OF False h2 h3, of f1] f1 lt show ?thesis
      by (simp add: Let_def add.assoc)
  qed
qed

lemma selectUtxos_exhausted:
  assumes "utxos \<noteq> []"
    and "\<forall>k. 0 < k \<and> k \<le> length utxos \<longrightarrow>
           (\<exists>f. estimatedFee rate k (n + 1) = Inr f
               \<and> sum_list (map val (take k utxos)) < toSend + f)"
    and "estimatedFee rate (length utxos) (n + 1) = Inr fee"
  shows "selectUtxos rate n toSend utxos
         = Inl (InsufficientFunds (toSend + fee) (sum_list (map val utxos)))"
proof -
  have len: "0 < length utxos" using assms(1) by simp
  from assms(2)[rule_format, of 1] len obtain f1 where
    f1: "estimatedFee rate 1 (n + 1) = Inr f1"
    by (cases utxos) auto
  from assms(2)[rule_format, of "length utxos"] assms(3) len
  have short: "sum_list (map val utxos) < toSend + fee" by auto
  have "select_loop rate n toSend utxos ([], 0, 0)
        = Inr ([] @ utxos, 0 + sum_list (map val utxos), fee)"
    using assms by (intro select_loop_exhausted) auto
  with f1 short show ?thesis by (simp add: selectUtxos_def)
qed

lemma wpkhInput_fields:
  "wpkhInput W u = Inr (Some inp) \<Longrightarrow> partialSig inp = None \<and> tapKeySig inp = None"
  by (auto simp: wpkhInput_def split: option.splits if_splits)

lemma collectInputs_outputs:
  "collectInputs W us p a = (r, p', a') \<Longrightarrow> outputs p' = outputs p"
  by (induction us arbitrary: p a) (auto split: sum.splits option.splits)

lemma collectInputs_unsigned:
  "collectInputs W us p a = (r, p', a') \<Longrightarrow> \<forall>i\<in>set (inputs p). partialSig i = None \<Longrightarrow>
   \<forall>i\<in>set (inputs p'). partialSig i = None"
proof (induction us arbitrary: p a)
  case Nil
  then show ?case by simp
next
  case (Cons u us)
  show ?case
  proof (cases "wpkhInput W u")
    case (Inl e)
    with Cons.prems show ?thesis by simp
  next
    case (Inr oi)
    show ?thesis
    proof (cases oi)
      case None
      with Inr Cons show ?thesis by simp
    next
      case (Some inp)
      with Inr Cons.prems have
        "collectInputs W us (p\<lparr>inputs := inputs p @ [inp]\<rparr>) (a + val u) = (r, p', a')"
        by simp
      moreover have "\<forall>i\<in>set (inputs (p\<lparr>inputs := inputs p @ [inp]\<rparr>)). partialSig i = None"
        using Cons.prems(2) wpkhInput_fields[OF Inr[unfolded Some]] by simp
      ultimately show ?thesis by (rule Cons.IH)
    qed
  qed
qed

section \<open>The claims\<close>

subsection \<open>C1: greedy selection\<close>

text \<open>
  Claim C1, as amended. In the taproot script the selector walks the UTXOs in the order the
  explorer returned them; the selection is a non-empty prefix \<open>take k utxos\<close>, the
  input total is the sum of its values, the fee is the estimate for \<open>k\<close> inputs and
  \<open>n + 1\<close> outputs, the total covers payout plus fee, and no shorter non-empty prefix
  covered payout plus its own fee estimate. The empty prefix is never tested by the loop;
  the bound is false for it as well whenever the rate is positive and the payout is not
  negative.
\<close>

theorem selectUtxos_greedy:
  assumes "utxos \<noteq> []"
      and "selectUtxos rate n toSend utxos = Inr (sel, totalIn, fee)"
  shows "\<exists>k. 0 < k \<and> k \<le> length utxos \<and> sel = take k utxos
           \<and> totalIn = sum_list (map val sel)
           \<and> estimatedFee rate k (n + 1) = Inr fee
           \<and> totalIn \<ge> toSend + fee
           \<and> (\<forall>j. 0 < j \<and> j < k \<longrightarrow>
                (\<exists>fj. estimatedFee rate j (n + 1) = Inr fj
                     \<and> sum_list (map val (take j utxos)) < toSend + fj))
           \<and> (\<forall>r f0. ToNumber rate = Some r \<and> 0 < r \<and> 0 \<le> toSend
                     \<and> estimatedFee rate 0 (n + 1) = Inr f0
                  \<longrightarrow> sum_list (map val (take 0 utxos)) < toSend + f0)"
proof -
  from assms(2) have loop: "select_loop rate n toSend utxos ([], 0, 0) = Inr (sel, totalIn, fee)"
    by (auto simp: selectUtxos_def split: sum.splits prod.splits if_splits)
  from select_loop_spec[OF loop] obtain k where k: "k \<le> length utxos" "sel = take k utxos"
    "totalIn = sum_list (map val (take k utxos))"
    "k = 0 \<longrightarrow> fee = 0 \<and> utxos = []"
    "0 < k \<longrightarrow> estimatedFee rate k (n + 1) = Inr fee"
    "\<forall>j. 0 < j \<and> j < k \<longrightarrow>
        (\<exists>fj. estimatedFee rate j (n + 1) = Inr fj \<and>
              sum_list (map val (take j utxos)) < toSend + fj)"
    by auto
  from k(4) assms(1) have pos: "0 < k" by auto
  have zero: "\<forall>r f0. ToNumber rate = Some r \<and> 0 < r \<and> 0 \<le> toSend
                     \<and> estimatedFee rate 0 (n + 1) = Inr f0
                  \<longrightarrow> sum_list (map val (take 0 utxos)) < toSend + f0"
    using estimatedFee_positive by fastforce
  show ?thesis
    using k pos zero selectUtxos_covers[OF assms(2)]
    by (intro exI[of _ k]) simp
qed

theorem selectUtxos_greedy_witness:
  "ex_utxos2 \<noteq> []
   \<and> selectUtxos (JNum 5) 2 20000 ex_utxos2 = Inr (take 2 ex_utxos2, 65000, 1275)
   \<and> estimatedFee (JNum 5) 2 (2 + 1) = Inr 1275
   \<and> (65000 :: int) \<ge> 20000 + 1275
   \<and> estimatedFee (JNum 5) 1 (2 + 1) = Inr 985
   \<and> sum_list (map val (take 1 ex_utxos2)) < 20000 + 985"
proof -
  have ne: "ex_utxos2 \<noteq> []" by (simp add: ex_utxos2_def)
  have run: "selectUtxos (JNum 5) 2 20000 ex_utxos2 = Inr (take 2 ex_utxos2, 65000, 1275)"
    by code_simp
  have rest: "estimatedFee (JNum 5) 2 (2 + 1) = Inr 1275 \<and> (65000 :: int) \<ge> 20000 + 1275
     \<and> estimatedFee (JNum 5) 1 (2 + 1) = Inr 985
     \<and> sum_list (map val (take 1 ex_utxos2)) < 20000 + 985"
    by code_simp
  from selectUtxos_greedy[OF ne run] ne run rest show ?thesis by simp
qed

text \<open>
  Counterexample to C1 as stated (it names \<open>createTransaction\<close> too): the P2WPKH script
  has no selection loop. With UTXOs of 100000, 50000 and 20000 satoshis, two recipients of
  10000 satoshis and 5 sat/vB it spends all three, although the first alone already covers
  the payout plus the fee for one input and three outputs.
\<close>

theorem createTransaction_takes_every_utxo:
  "fst (createTransaction ex_wenv ''L1exampleWIF'' (JNum (to_double (1 / 10000))))
     = Inr ''020000000001''
   \<and> map witnessUtxo_value
        (inputs (snd (createTransaction ex_wenv ''L1exampleWIF''
           (JNum (to_double (1 / 10000))))))
      = [100000, 50000, 20000]
   \<and> estimatedFee_p2wpkh (JNum 5) 1 (2 + 1) = Some 905
   \<and> (100000 :: int) \<ge> 2 * 10000 + 905"
  by code_simp

subsection \<open>C2: what the taproot signature hash is computed over\<close>

text \<open>
  Claim C2 says that the hash signed for input \<open>i\<close> covers the previous scripts and values
  of all inputs. The script builds \<open>prevoutScripts\<close> and \<open>prevoutValues\<close> by mapping over
  all selected UTXOs, but reads every element from input \<open>i\<close> and hands
  \<open>hashForWitnessV1\<close> one-element lists: with two inputs worth 15000 and 50000 satoshis,
  input 0 is hashed over the value list \<open>[15000]\<close> and input 1 over \<open>[50000]\<close>, not over
  \<open>[15000, 50000]\<close>. With a library that insists on one previous output per input, as the
  stand-in of the example does, such a run ends at the first hash.
\<close>

theorem sighash_gets_one_prevout:
  "map witnessUtxo_value
     (inputs (snd (addInputs ex_env_two (''5120'' @ ex_Gx_hex) (Buffer_from_hex ex_Gx_hex)
        (take 2 ex_utxos2) \<lparr>inputs = [], outputs = []\<rparr>))) = [15000, 50000]
   \<and> sighash_prevouts (take 2 ex_utxos2)
        (snd (addInputs ex_env_two (''5120'' @ ex_Gx_hex) (Buffer_from_hex ex_Gx_hex)
           (take 2 ex_utxos2) \<lparr>inputs = [], outputs = []\<rparr>)) 0
      = Some ([Buffer_from_hex (''5120'' @ ex_Gx_hex)], [15000])
   \<and> sighash_prevouts (take 2 ex_utxos2)
        (snd (addInputs ex_env_two (''5120'' @ ex_Gx_hex) (Buffer_from_hex ex_Gx_hex)
           (take 2 ex_utxos2) \<lparr>inputs = [], outputs = []\<rparr>)) 1
      = Some ([Buffer_from_hex (''5120'' @ ex_Gx_hex)], [50000])
   \<and> fst (batchSend ex_env_two) = Failed (SighashFailed 0)"
  by code_simp

subsection \<open>C3: a UTXO with a foreign script\<close>

text \<open>
  Claim C3, as amended. In the taproot script, when the selected UTXOs before \<open>u\<close> were
  added and the script the explorer shows for \<open>u\<close> decodes to bytes other than the script
  of the sender's address, the run ends with the script-mismatch failure for \<open>u\<close>; the
  PSBT then holds inputs for the earlier UTXOs only, each with exactly the expected script,
  no signature and no output.
\<close>

theorem script_mismatch_aborts:
  assumes "initKeys E = Inr (priv, pub)"
      and "p2tr E pub = (fromA, out)"
      and "getUtxos E fromA = Some utxos" and "utxos \<noteq> []"
      and "amountInSats (config E) = Some sats"
      and "selectUtxos (getFeeRate (config E) (fees_recommended E)) (length (addresses E))
             (sats * int (length (addresses E))) utxos = Inr (pre @ u # post, ti, fee)"
      and "addInputs E (toString_hex out) pub pre \<lparr>inputs = [], outputs = []\<rparr> = (None, p1)"
      and "getUtxoDetails E u = Some d" and "vout u < length d" and "d ! vout u = Some s"
      and "s \<noteq> []"
      and "Buffer_from_hex s \<noteq> out"
  shows "batchSend E = (Failed (ScriptMismatch (txid u) (vout u)
                          (toString_hex (Buffer_from_hex s)) (toString_hex out)), p1)
     \<and> map (\<lambda>i. (hash i, index i)) (inputs p1) = map (\<lambda>u. (txid u, vout u)) pre
     \<and> (\<forall>i\<in>set (inputs p1). tapKeySig i = None \<and> witnessUtxo_script i = out)
     \<and> outputs p1 = []"
proof -
  have ne: "toString_hex (Buffer_from_hex s) \<noteq> toString_hex out"
    using assms(12) toString_hex_inj by blast
  have "addInputs E (toString_hex out) pub (pre @ u # post) \<lparr>inputs = [], outputs = []\<rparr>
        = (Some (ScriptMismatch (txid u) (vout u) (toString_hex (Buffer_from_hex s))
                   (toString_hex out)), p1)"
    using assms(7) checkedInput_mismatch[OF assms(8-11) ne]
    by (simp add: addInputs_append)
  then have "build_from_selection E priv pub fromA (toString_hex out) sats
               (sats * int (length (addresses E))) (pre @ u # post, ti, fee)
             = (Inl (ScriptMismatch (txid u) (vout u) (toString_hex (Buffer_from_hex s))
                       (toString_hex out)), p1)"
    by (simp add: build_from_selection_def)
  with assms(1-6) have "batchSend_build E
             = (Inl (ScriptMismatch (txid u) (vout u) (toString_hex (Buffer_from_hex s))
                       (toString_hex out)), p1)"
    by (simp add: batchSend_build_def Let_def)
  then have run: "batchSend E = (Failed (ScriptMismatch (txid u) (vout u)
                          (toString_hex (Buffer_from_hex s)) (toString_hex out)), p1)"
    by (simp add: batchSend_def)
  have pts: "map (\<lambda>i. (hash i, index i)) (inputs p1) = map (\<lambda>u. (txid u, vout u)) pre"
    using addInputs_outpoints[OF assms(7)] by simp
  have uns: "\<forall>i\<in>set (inputs p1). tapKeySig i = None"
    using addInputs_unsigned[OF assms(7)] by simp
  have scr: "\<forall>i\<in>set (inputs p1). witnessUtxo_script i = out"
    using addInputs_scripts[OF assms(7)] by simp
  have outs: "outputs p1 = []"
    using addInputs_outputs[OF assms(7)] by simp
  from run pts uns scr outs show ?thesis by blast
qed

theorem script_mismatch_aborts_witness:
  "fst (batchSend ex_env_foreign)
     = Failed (ScriptMismatch ''bb'' 1 ex_foreign_script (''5120'' @ ex_Gx_hex))
   \<and> map (\<lambda>i. (hash i, index i)) (inputs (snd (batchSend ex_env_foreign))) = [(''aa'', 0)]
   \<and> map tapKeySig (inputs (snd (batchSend ex_env_foreign))) = [None]
   \<and> outputs (snd (batchSend ex_env_foreign)) = []"
proof -
  let ?pub = "Buffer_from_hex ex_Gx_hex"
  let ?out = "[0x51, 0x20] @ ?pub"
  let ?aa = "\<lparr>txid = ''aa'', vout = 0, val = 15000\<rparr>"
  let ?bb = "\<lparr>txid = ''bb'', vout = 1, val = 50000\<rparr>"
  define p1 where "p1 = snd (addInputs ex_env_foreign (toString_hex ?out) ?pub [?aa]
                    \<lparr>inputs = [], outputs = []\<rparr>)"
  have h1: "initKeys ex_env_foreign = Inr (ex_privateKey, ?pub)" by code_simp
  have h2: "p2tr ex_env_foreign ?pub = (''bc1pfunding'', ?out)" by code_simp
  have h3: "getUtxos ex_env_foreign ''bc1pfunding'' = Some ex_utxos2" by code_simp
  have h4: "ex_utxos2 \<noteq> []" by code_simp
  have h5: "amountInSats (config ex_env_foreign) = Some 10000" by code_simp
  have h6: "selectUtxos (getFeeRate (config ex_env_foreign) (fees_recommended ex_env_foreign))
              (length (addresses ex_env_foreign))
              (10000 * int (length (addresses ex_env_foreign))) ex_utxos2
            = Inr ([?aa] @ ?bb # [], 65000, 1275)" by code_simp
  have "fst (addInputs ex_env_foreign (toString_hex ?out) ?pub [?aa]
                    \<lparr>inputs = [], outputs = []\<rparr>) = None" by code_simp
  then have h7: "addInputs ex_env_foreign (toString_hex ?out) ?pub [?aa]
                    \<lparr>inputs = [], outputs = []\<rparr> = (None, p1)"
    unfolding p1_def by (simp only: prod_eq_iff fst_conv snd_conv simp_thms)
  have h8: "getUtxoDetails ex_env_foreign ?bb = Some [None, Some ex_foreign_script]"
    by code_simp
  have h9: "vout ?bb < length [None, Some ex_foreign_script]" by simp
  have h10: "[None, Some ex_foreign_script] ! vout ?bb = Some ex_foreign_script" by simp
  have h11: "ex_foreign_script \<noteq> []" by code_simp
  have h12: "Buffer_from_hex ex_foreign_script \<noteq> ?out" by code_simp
  note t = script_mismatch_aborts[OF h1 h2 h3 h4 h5 h6 h7 h8 h9 h10 h11 h12]
  have e1: "toString_hex (Buffer_from_hex ex_foreign_script) = ex_foreign_script" by code_simp
  have e2: "toString_hex ?out = ''5120'' @ ex_Gx_hex" by code_simp
  have e3: "map tapKeySig (inputs p1) = [None]" unfolding p1_def by code_simp
  have e4: "map (\<lambda>u. (txid u, vout u)) [?aa] = [(''aa'', 0)]" by simp
  from t have run: "batchSend ex_env_foreign
      = (Failed (ScriptMismatch ''bb'' 1 ex_foreign_script (''5120'' @ ex_Gx_hex)), p1)"
    and pts: "map (\<lambda>i. (hash i, index i)) (inputs p1) = [(''aa'', 0)]"
    and outs: "outputs p1 = []"
    unfolding e1 e2 e4 by (simp_all only: utxo.simps)
  show ?thesis
    unfolding run fst_conv snd_conv using pts outs e3 by simp
qed

text \<open>
  Counterexample to C3 as stated (it names \<open>createTransaction\<close> too): the P2WPKH script
  compares no scripts. Here the explorer shows a foreign script for the second UTXO; the
  script still makes it an input and adds the outputs, the first input is signed, and the
  run ends only when the library refuses to sign the second.
\<close>

theorem createTransaction_accepts_any_script:
  "fst (createTransaction ex_wenv_foreign ''L1exampleWIF'' (JNum (to_double (1 / 10000))))
     = Inl (SignOrVerifyFailed 1)
   \<and> map (\<lambda>i. (hash i, toString_hex (witnessUtxo_script i)))
        (inputs (snd (createTransaction ex_wenv_foreign ''L1exampleWIF''
           (JNum (to_double (1 / 10000))))))
      = [(''aa'', ex_wpkh_script),
         (''bb'', ''00140000000000000000000000000000000000000000''),
         (''cc'', ex_wpkh_script)]
   \<and> map partialSig
        (inputs (snd (createTransaction ex_wenv_foreign ''L1exampleWIF''
           (JNum (to_double (1 / 10000))))))
      = [Some [0x30, 0], None, None]
   \<and> length (outputs (snd (createTransaction ex_wenv_foreign ''L1exampleWIF''
        (JNum (to_double (1 / 10000)))))) = 3"
  by code_simp

subsection \<open>C4: the key that signs a taproot input\<close>



subsection \<open>C5: the change is never negative\<close>

text \<open>
  Claim C5. When the selection phase of the taproot script succeeds, the change
  \<open>totalInput - totalAmountToSend - finalFee\<close> is not negative, so no run ends in the
  negative-change failure.
\<close>

theorem change_never_negative:
  "(selectUtxos rate n toSend utxos = Inr (sel, ti, fee) \<longrightarrow> 0 \<le> ti - toSend - fee)
   \<and> (\<forall>c. fst (batchSend_build E) \<noteq> Inl (NegativeChange c))
   \<and> (\<forall>c. fst (batchSend E) \<noteq> Failed (NegativeChange c))"
proof -
  have a: "selectUtxos rate n toSend utxos = Inr (sel, ti, fee) \<longrightarrow> 0 \<le> ti - toSend - fee"
    using selectUtxos_covers by fastforce
  have b: "fst (batchSend_build E) \<noteq> Inl (NegativeChange c)" for c
  proof
    assume f: "fst (batchSend_build E) = Inl (NegativeChange c)"
    then obtain p where r: "batchSend_build E = (Inl (NegativeChange c), p)"
      by (cases "batchSend_build E") auto
    from batchSend_build_cases[OF r] obtain priv pub fromA x sats toSend utxos rate n sel where
      s: "selectUtxos rate n toSend utxos = Inr sel"
      and bb: "build_from_selection E priv pub fromA x sats toSend sel
            = (Inl (NegativeChange c), p)"
      by auto
    obtain sl ti fee where sel: "sel = (sl, ti, fee)" by (cases sel) auto
    from selectUtxos_covers[OF s[unfolded sel]] build_from_selection_Inl[OF bb[unfolded sel]]
    show False by blast
  qed
  have c: "fst (batchSend E) \<noteq> Failed (NegativeChange c)" for c
    using b[of c] unfolding batchSend_def
    by (auto split: prod.splits sum.splits option.splits if_splits)
  from a b c show ?thesis by blast
qed

theorem change_never_negative_witness:
  "selectUtxos (JNum 5) 2 20000 ex_utxos2 = Inr (take 2 ex_utxos2, 65000, 1275)
   \<and> (0 :: int) \<le> 65000 - 20000 - 1275"
proof -
  have run: "selectUtxos (JNum 5) 2 20000 ex_utxos2 = Inr (take 2 ex_utxos2, 65000, 1275)"
    by code_simp
  from change_never_negative[of "JNum 5" 2 20000 ex_utxos2 "take 2 ex_utxos2" 65000 1275 ex_env]
    run show ?thesis by simp
qed

subsection \<open>C6: the change output at the dust threshold\<close>

text \<open>
  Claim C6 says a change output is added exactly when the change is at least 546 satoshis.
  The taproot script does so (\<open>changeValue >= 546\<close>), but the P2WPKH script tests
  \<open>changeAmount > 546\<close>: with an input of 21451 satoshis, two recipients of 10000 and a fee
  of 905 the change is exactly 546 and \<open>createTransaction\<close> adds no change output, while
  \<open>batchSend\<close> at the same change does.
\<close>

theorem createTransaction_drops_change_of_546:
  "fst (createTransaction ex_wenv_546 ''L1exampleWIF'' (JNum (to_double (1 / 10000))))
     = Inr ''020000000001''
   \<and> estimatedFee_p2wpkh (JNum 5) 1 3 = Some 905
   \<and> (21451 :: int) - 2 * 10000 - 905 = 546
   \<and> map amount (outputs (snd (createTransaction ex_wenv_546 ''L1exampleWIF''
        (JNum (to_double (1 / 10000)))))) = [10000, 10000]
   \<and> map amount (outputs (snd (batchSend_build ex_env_546))) = [10000, 10000, 546]"
  by code_simp

subsection \<open>C7: change below the dust threshold\<close>

text \<open>
  Claim C7, as amended. In a successful build of the taproot script with a change below
  546 satoshis the outputs are the recipients' outputs and nothing else, the change is not
  negative, and the outputs, the computed fee and the change add up to the input total:
  the fee actually paid is the computed fee plus the change. The outputs and the computed
  fee alone add up to the input total only when the change is zero.
\<close>

theorem dust_change_absorbed:
  assumes "batchSend_build E = (Inr b, p)" and "b_changeValue b < 546"
  shows "(\<exists>sats. amountInSats (config E) = Some sats
            \<and> outputs p = map (\<lambda>a. \<lparr>address = trim a, amount = sats\<rparr>) (addresses E))
     \<and> 0 \<le> b_changeValue b
     \<and> sum_list (map amount (outputs p)) + b_finalFee b + b_changeValue b = b_totalInput b
     \<and> (sum_list (map amount (outputs p)) + b_finalFee b = b_totalInput b
          \<longleftrightarrow> b_changeValue b = 0)"
proof -
  from batchSend_build_outputs[OF assms(1)] assms(2) obtain sats where
    s: "amountInSats (config E) = Some sats"
    and o: "outputs p = map (\<lambda>a. \<lparr>address = trim a, amount = sats\<rparr>) (addresses E)"
    and t: "b_totalAmountToSend b = sats * int (length (addresses E))"
    and c: "b_changeValue b = b_totalInput b - b_totalAmountToSend b - b_finalFee b"
           "0 \<le> b_changeValue b"
    by auto
  have "sum_list (map amount (outputs p)) = b_totalAmountToSend b"
    by (simp add: o t comp_def sum_list_const_amount)
  with s o c show ?thesis by auto
qed

theorem dust_change_absorbed_witness:
  "fst (batchSend_build ex_env_dust)
     = Inr \<lparr>b_txHex = ''020000000001'', b_totalInput = 21085, b_totalAmountToSend = 20000,
            b_finalFee = 985, b_changeValue = 100\<rparr>
   \<and> map amount (outputs (snd (batchSend_build ex_env_dust))) = [10000, 10000]
   \<and> sum_list (map amount (outputs (snd (batchSend_build ex_env_dust)))) + 985 + 100
      = (21085 :: int)"
proof -
  define b where "b = \<lparr>b_txHex = ''020000000001'', b_totalInput = 21085,
     b_totalAmountToSend = 20000, b_finalFee = 985, b_changeValue = 100\<rparr>"
  define p where "p = snd (batchSend_build ex_env_dust)"
  have f: "fst (batchSend_build ex_env_dust) = Inr b" unfolding b_def by code_simp
  then have run: "batchSend_build ex_env_dust = (Inr b, p)"
    unfolding p_def by (simp only: prod_eq_iff fst_conv snd_conv simp_thms)
  have lt: "b_changeValue b < 546" by (simp add: b_def)
  have outs: "map amount (outputs p) = [10000, 10000]" unfolding p_def by code_simp
  from dust_change_absorbed[OF run lt] have
    "sum_list (map amount (outputs p)) + b_finalFee b + b_changeValue b = b_totalInput b"
    by blast
  then have "sum_list (map amount (outputs p)) + 985 + 100 = (21085 :: int)"
    by (simp add: b_def)
  with f outs show ?thesis unfolding p_def b_def by simp
qed

text \<open>
  Counterexample to C7 as stated: with an input of 21085 satoshis, a payout of 20000 and a
  computed fee of 985 the change of 100 is dropped, and the outputs plus the computed fee
  are 20985, not 21085.
\<close>

theorem dust_change_not_in_computed_fee:
  "fst (batchSend_build ex_env_dust)
     = Inr \<lparr>b_txHex = ''020000000001'', b_totalInput = 21085, b_totalAmountToSend = 20000,
            b_finalFee = 985, b_changeValue = 100\<rparr>
   \<and> map amount (outputs (snd (batchSend_build ex_env_dust))) = [10000, 10000]
   \<and> sum_list (map amount (outputs (snd (batchSend_build ex_env_dust)))) + 985
      \<noteq> (21085 :: int)"
  by code_simp

subsection \<open>C8: not enough funds\<close>

text \<open>
  Claim C8. Taproot script: when the run reaches the selection with a non-empty candidate
  list and no prefix of the list covers the payout plus its fee estimate, the run fails
  with the insufficient-funds failure, which carries the required total (payout plus the
  fee for all candidates) and the available total (the sum of all candidates); the PSBT is
  still empty, so nothing was signed, and nothing is broadcast. P2WPKH script: when the
  inputs collected from the candidates add up to less than the payout plus the fee, the run
  fails with the insufficient-funds failure carrying the required and the available
  amount; the PSBT has no output and no signature, and nothing is broadcast.
\<close>

theorem insufficient_funds_reported:
  "(initKeys E = Inr (priv, pub) \<and> p2tr E pub = (fromA, out)
      \<and> getUtxos E fromA = Some utxos \<and> utxos \<noteq> []
      \<and> amountInSats (config E) = Some sats
      \<and> (\<forall>k. 0 < k \<and> k \<le> length utxos \<longrightarrow>
            (\<exists>f. estimatedFee (getFeeRate (config E) (fees_recommended E)) k
                    (length (addresses E) + 1) = Inr f
                \<and> sum_list (map val (take k utxos))
                    < sats * int (length (addresses E)) + f))
      \<and> estimatedFee (getFeeRate (config E) (fees_recommended E)) (length utxos)
            (length (addresses E) + 1) = Inr fee
    \<longrightarrow> batchSend E
          = (Failed (InsufficientFunds (sats * int (length (addresses E)) + fee)
                       (sum_list (map val utxos))),
             \<lparr>inputs = [], outputs = []\<rparr>))
   \<and> (w_fromWIF W (privateKey (w_config W)) = Some publicKey
      \<and> getUTXOs W (w_p2wpkh W publicKey) = Some wutxos \<and> wutxos \<noteq> []
      \<and> getFeeRate_p2wpkh (w_config W) (w_fees_recommended W) = Inr rate
      \<and> collectInputs W wutxos \<lparr>inputs = [], outputs = []\<rparr> 0 = (None, p1, inputAmount)
      \<and> inputs p1 \<noteq> []
      \<and> Math_floor (js_times (ToNumber (sendAmountBTC (w_config W))) (Some 100000000))
          = Some amt
      \<and> estimatedFee_p2wpkh rate (length wutxos) (length (w_addresses W) + 1) = Some wfee
      \<and> inputAmount < int (length (w_addresses W)) * amt + wfee
    \<longrightarrow> main_p2wpkh W
          = (Failed (InsufficientFunds (int (length (w_addresses W)) * amt + wfee)
                       inputAmount), p1)
        \<and> outputs p1 = [] \<and> (\<forall>i\<in>set (inputs p1). partialSig i = None))"
proof (intro conjI impI)
  assume a: "initKeys E = Inr (priv, pub) \<and> p2tr E pub = (fromA, out)
      \<and> getUtxos E fromA = Some utxos \<and> utxos \<noteq> []
      \<and> amountInSats (config E) = Some sats
      \<and> (\<forall>k. 0 < k \<and> k \<le> length utxos \<longrightarrow>
            (\<exists>f. estimatedFee (getFeeRate (config E) (fees_recommended E)) k
                    (length (addresses E) + 1) = Inr f
                \<and> sum_list (map val (take k utxos))
                    < sats * int (length (addresses E)) + f))
      \<and> estimatedFee (getFeeRate (config E) (fees_recommended E)) (length utxos)
            (length (addresses E) + 1) = Inr fee"
  then have sel: "selectUtxos (getFeeRate (config E) (fees_recommended E))
        (length (addresses E)) (sats * int (length (addresses E))) utxos
      = Inl (InsufficientFunds (sats * int (length (addresses E)) + fee)
               (sum_list (map val utxos)))"
    by (intro selectUtxos_exhausted) blast+
  from a have k: "initKeys E = Inr (priv, pub)" "p2tr E pub = (fromA, out)"
    "getUtxos E fromA = Some utxos" "utxos \<noteq> []" "amountInSats (config E) = Some sats"
    by blast+
  from k sel have "batchSend_build E
      = (Inl (InsufficientFunds (sats * int (length (addresses E)) + fee)
                (sum_list (map val utxos))), \<lparr>inputs = [], outputs = []\<rparr>)"
    by (simp add: batchSend_build_def Let_def)
  then show "batchSend E
          = (Failed (InsufficientFunds (sats * int (length (addresses E)) + fee)
                       (sum_list (map val utxos))),
             \<lparr>inputs = [], outputs = []\<rparr>)"
    by (simp add: batchSend_def)
next
  assume b: "w_fromWIF W (privateKey (w_config W)) = Some publicKey
      \<and> getUTXOs W (w_p2wpkh W publicKey) = Some wutxos \<and> wutxos \<noteq> []
      \<and> getFeeRate_p2wpkh (w_config W) (w_fees_recommended W) = Inr rate
      \<and> collectInputs W wutxos \<lparr>inputs = [], outputs = []\<rparr> 0 = (None, p1, inputAmount)
      \<and> inputs p1 \<noteq> []
      \<and> Math_floor (js_times (ToNumber (sendAmountBTC (w_config W))) (Some 100000000))
          = Some amt
      \<and> estimatedFee_p2wpkh rate (length wutxos) (length (w_addresses W) + 1) = Some wfee
      \<and> inputAmount < int (length (w_addresses W)) * amt + wfee"
  then have c: "collectInputs W wutxos \<lparr>inputs = [], outputs = []\<rparr> 0 = (None, p1, inputAmount)"
    by blast
  from b have "createTransaction W (privateKey (w_config W)) (sendAmountBTC (w_config W))
      = (Inl (InsufficientFunds (int (length (w_addresses W)) * amt + wfee) inputAmount), p1)"
    by (simp add: createTransaction_def Let_def balanceCheck_def num_lt_def num_add_def
          num_mul_def)
  then show "main_p2wpkh W
          = (Failed (InsufficientFunds (int (length (w_addresses W)) * amt + wfee)
                       inputAmount), p1)"
    by (simp add: main_p2wpkh_def)
  show "outputs p1 = []" using collectInputs_outputs[OF c] by simp
  show "\<forall>i\<in>set (inputs p1). partialSig i = None"
    using collectInputs_unsigned[OF c] by simp
qed

theorem insufficient_funds_reported_witness:
  "batchSend ex_env_poor
     = (Failed (InsufficientFunds 21275 15000), \<lparr>inputs = [], outputs = []\<rparr>)
   \<and> fst (main_p2wpkh ex_wenv_poor) = Failed (InsufficientFunds 21245 15000)
   \<and> outputs (snd (main_p2wpkh ex_wenv_poor)) = []
   \<and> map partialSig (inputs (snd (main_p2wpkh ex_wenv_poor))) = [None, None]"
proof -
  let ?pub = "Buffer_from_hex ex_Gx_hex"
  let ?us = "[\<lparr>txid = ''aa'', vout = 0, val = 10000\<rparr>, \<lparr>txid = ''bb'', vout = 1, val = 5000\<rparr>]"
  let ?rate = "getFeeRate (config ex_env_poor) (fees_recommended ex_env_poor)"
  let ?n = "length (addresses ex_env_poor)"
  define p1 where "p1 = fst (snd (collectInputs ex_wenv_poor ?us \<lparr>inputs = [], outputs = []\<rparr> 0))"
  have a1: "initKeys ex_env_poor = Inr (ex_privateKey, ?pub)" by code_simp
  have a2: "p2tr ex_env_poor ?pub = (''bc1pfunding'', [0x51, 0x20] @ ?pub)" by code_simp
  have a3: "getUtxos ex_env_poor ''bc1pfunding'' = Some ?us" by code_simp
  have a4: "?us \<noteq> []" by simp
  have a5: "amountInSats (config ex_env_poor) = Some 10000" by code_simp
  have k1: "estimatedFee ?rate 1 (?n + 1) = Inr 985
            \<and> sum_list (map val (take 1 ?us)) < 10000 * int ?n + 985" by code_simp
  have k2: "estimatedFee ?rate 2 (?n + 1) = Inr 1275
            \<and> sum_list (map val (take 2 ?us)) < 10000 * int ?n + 1275" by code_simp
  have a6: "\<forall>k. 0 < k \<and> k \<le> length ?us \<longrightarrow>
            (\<exists>f. estimatedFee ?rate k (?n + 1) = Inr f
                \<and> sum_list (map val (take k ?us)) < 10000 * int ?n + f)"
  proof (intro allI impI)
    fix k :: nat assume "0 < k \<and> k \<le> length ?us"
    then have "k = 1 \<or> k = 2" by auto
    with k1 k2 show "\<exists>f. estimatedFee ?rate k (?n + 1) = Inr f
                \<and> sum_list (map val (take k ?us)) < 10000 * int ?n + f"
      by blast
  qed
  have a7: "estimatedFee ?rate (length ?us) (?n + 1) = Inr 1275" by code_simp
  have b1: "w_fromWIF ex_wenv_poor (privateKey (w_config ex_wenv_poor))
            = Some (2 # ?pub)" by code_simp
  have b2: "getUTXOs ex_wenv_poor (w_p2wpkh ex_wenv_poor (2 # ?pub)) = Some ?us" by code_simp
  have b3: "getFeeRate_p2wpkh (w_config ex_wenv_poor) (w_fees_recommended ex_wenv_poor)
            = Inr (JNum 5)" by code_simp
  have "fst (collectInputs ex_wenv_poor ?us \<lparr>inputs = [], outputs = []\<rparr> 0) = None
        \<and> snd (snd (collectInputs ex_wenv_poor ?us \<lparr>inputs = [], outputs = []\<rparr> 0)) = 15000"
    by code_simp
  then have b4: "collectInputs ex_wenv_poor ?us \<lparr>inputs = [], outputs = []\<rparr> 0
                 = (None, p1, 15000)"
    unfolding p1_def by (simp only: prod_eq_iff fst_conv snd_conv simp_thms)
  have b5: "inputs p1 \<noteq> []" unfolding p1_def by code_simp
  have b6: "Math_floor (js_times (ToNumber (sendAmountBTC (w_config ex_wenv_poor)))
              (Some 100000000)) = Some 10000" by code_simp
  have b7: "estimatedFee_p2wpkh (JNum 5) (length ?us) (length (w_addresses ex_wenv_poor) + 1)
            = Some 1245" by code_simp
  have b8: "(15000 :: int) < int (length (w_addresses ex_wenv_poor)) * 10000 + 1245"
    by code_simp
  have sigs: "map partialSig (inputs p1) = [None, None]" unfolding p1_def by code_simp
  have n: "10000 * int ?n + 1275 = 21275" "sum_list (map val ?us) = 15000"
    "int (length (w_addresses ex_wenv_poor)) * 10000 + 1245 = 21245"
    by code_simp+
  note t = insufficient_funds_reported[where E = ex_env_poor and priv = ex_privateKey
      and pub = ?pub and fromA = "''bc1pfunding''" and out = "[0x51, 0x20] @ ?pub"
      and utxos = ?us and sats = 10000 and fee = 1275
      and W = ex_wenv_poor and publicKey = "2 # ?pub" and wutxos = ?us and rate = "JNum 5"
      and ?p1.0 = p1 and inputAmount = 15000 and amt = 10000 and wfee = 1245]
  from t[THEN conjunct1, rule_format, OF conjI[OF a1 conjI[OF a2 conjI[OF a3 conjI[OF a4
            conjI[OF a5 conjI[OF a6 a7]]]]]]]
  have A: "batchSend ex_env_poor
     = (Failed (InsufficientFunds 21275 15000), \<lparr>inputs = [], outputs = []\<rparr>)"
    unfolding n .
  from t[THEN conjunct2, rule_format, OF conjI[OF b1 conjI[OF b2 conjI[OF a4 conjI[OF b3
            conjI[OF b4 conjI[OF b5 conjI[OF b6 conjI[OF b7 b8]]]]]]]]]
  have B: "main_p2wpkh ex_wenv_poor = (Failed (InsufficientFunds 21245 15000), p1)"
    "outputs p1 = []"
    unfolding n by blast+
  show ?thesis unfolding A B(1) fst_conv snd_conv using B(2) sigs by simp
qed

subsection \<open>C9: where the fee rate comes from\<close>

text \<open>
  Claim C9, as amended. The two scripts resolve the rate differently. The P2WPKH script
  uses the configured rate when it is a positive number; otherwise it asks the explorer
  and takes \<open>fastestFee\<close>, and a failed request is a hard failure. The taproot script
  asks the explorer first and takes \<open>halfHourFee\<close>, else \<open>fastestFee\<close>, else the
  configured value; when the request fails it takes the configured value, and the function
  itself never fails.
\<close>

theorem fee_rate_sources:
  "((\<exists>r. feeRate cfg = JNum r \<and> 0 < r) \<longrightarrow>
        getFeeRate_p2wpkh cfg response = Inr (feeRate cfg))
   \<and> (\<not> (\<exists>r. feeRate cfg = JNum r \<and> 0 < r) \<longrightarrow>
        getFeeRate_p2wpkh cfg response
          = (case response of Some data \<Rightarrow> Inr (fastestFee data)
                            | None \<Rightarrow> Inl FeeRateUnavailable))
   \<and> getFeeRate cfg None = feeRate cfg
   \<and> getFeeRate cfg (Some data)
        = (if truthy (halfHourFee data) then halfHourFee data
           else if truthy (fastestFee data) then fastestFee data
           else feeRate cfg)"
proof -
  have v: "(truthy (feeRate cfg) \<and> is_number (feeRate cfg)
            \<and> (case ToNumber (feeRate cfg) of Some r \<Rightarrow> r > 0 | None \<Rightarrow> False))
           \<longleftrightarrow> (\<exists>r. feeRate cfg = JNum r \<and> 0 < r)"
    by (cases "feeRate cfg") auto
  show ?thesis
    unfolding getFeeRate_p2wpkh_def getFeeRate_def js_or_def v by auto
qed

theorem fee_rate_sources_witness:
  "feeRate ex_config = JNum 5 \<and> (0 :: rat) < 5
   \<and> getFeeRate_p2wpkh ex_config None = Inr (JNum 5)
   \<and> getFeeRate_p2wpkh (ex_config\<lparr>feeRate := JNum (- 1)\<rparr>)
        (Some \<lparr>halfHourFee = JNum 20, fastestFee = JNum 30\<rparr>) = Inr (JNum 30)
   \<and> getFeeRate_p2wpkh (ex_config\<lparr>feeRate := JNum (- 1)\<rparr>) None = Inl FeeRateUnavailable
   \<and> getFeeRate ex_config None = JNum 5"
proof -
  have c: "feeRate ex_config = JNum 5" by (simp add: ex_config_def)
  have n: "\<not> (\<exists>r. feeRate (ex_config\<lparr>feeRate := JNum (- 1)\<rparr>) = JNum r \<and> 0 < r)"
    by simp
  from fee_rate_sources[of ex_config None] c
  have a: "getFeeRate_p2wpkh ex_config None = Inr (JNum 5)" "getFeeRate ex_config None = JNum 5"
    by auto
  from fee_rate_sources[of "ex_config\<lparr>feeRate := JNum (- 1)\<rparr>"
         "Some \<lparr>halfHourFee = JNum 20, fastestFee = JNum 30\<rparr>"] n
  have b: "getFeeRate_p2wpkh (ex_config\<lparr>feeRate := JNum (- 1)\<rparr>)
        (Some \<lparr>halfHourFee = JNum 20, fastestFee = JNum 30\<rparr>) = Inr (JNum 30)"
    by simp
  from fee_rate_sources[of "ex_config\<lparr>feeRate := JNum (- 1)\<rparr>" None] n
  have d: "getFeeRate_p2wpkh (ex_config\<lparr>feeRate := JNum (- 1)\<rparr>) None
           = Inl FeeRateUnavailable"
    by simp
  from a b c d show ?thesis by simp
qed

text \<open>
  Counterexample to C9 as stated: with a valid configured rate of 5 sat/vB the taproot
  script still asks the explorer and uses its 20 sat/vB.
\<close>

theorem taproot_fee_rate_asks_network_first:
  "feeRate ex_config = JNum 5 \<and> (0 :: rat) < 5
   \<and> getFeeRate ex_config (Some \<lparr>halfHourFee = JNum 20, fastestFee = JNum 30\<rparr>) = JNum 20"
  by code_simp

subsection \<open>C10: the amount sent to each recipient\<close>



end
